theory Spec2Isabelle
  imports Main "HOL-Library.AList" "HOL-Library.Log_Nat"
begin

section \<open>Direct Grants API (src/server.js)\<close>

text \<open>
  The service keeps two JavaScript \<^verbatim>\<open>Map\<close>s, \<^verbatim>\<open>grants\<close> (id to grant) and
  \<^verbatim>\<open>grantors\<close> (address to stats), and a whitelist cache. A \<^verbatim>\<open>Map\<close> iterates in
  insertion order and \<^verbatim>\<open>set\<close> replaces the value of a key that is present in place, which
  is what \<open>AList.update\<close> does on an association list. Every handler is a function from
  the request, the answers of the outside world to that request (chain provider, wallet,
  clock, uuid generator, whitelist source) and the state to a response and the new state.

  Request fields are optional strings: \<open>None\<close> is a field that is absent. Strings are
  ASCII, as addresses and transaction hashes are.
\<close>

subsection \<open>JavaScript strings and truthiness\<close>

definition toLowerChar :: "char \<Rightarrow> char" where
  "toLowerChar c =
     (if (65::nat) \<le> of_char c \<and> of_char c \<le> (90::nat)
      then char_of (of_char c + (32::nat)) else c)"

definition toLowerCase :: "string \<Rightarrow> string" where
  "toLowerCase s = map toLowerChar s"

text \<open>A string operand of \<^verbatim>\<open>!\<close>, \<^verbatim>\<open>||\<close> or \<^verbatim>\<open>if\<close> is falsy when it is undefined or empty.\<close>

definition truthy :: "string option \<Rightarrow> bool" where
  "truthy v = (case v of None \<Rightarrow> False | Some s \<Rightarrow> s \<noteq> [])"

definition js_or :: "string option \<Rightarrow> string option \<Rightarrow> string option" where
  "js_or a b = (if truthy a then a else b)"

subsection \<open>Configuration\<close>

definition TREASURY_ADDRESS :: string where
  "TREASURY_ADDRESS = ''0xccD7200024A8B5708d381168ec2dB0DC587af83F''"

definition FEE_PERCENT :: int where
  "FEE_PERCENT = 5"

definition WHITELIST_CACHE_TTL :: int where
  "WHITELIST_CACHE_TTL = 5 * 60 * 1000"

text \<open>Division of BigInt values truncates towards zero.\<close>

definition bigint_div :: "int \<Rightarrow> int \<Rightarrow> int" where
  "bigint_div a b = sgn a * sgn b * (\<bar>a\<bar> div \<bar>b\<bar>)"

subsection \<open>Data storage\<close>

text \<open>
  A grant as built in the two POST handlers. The fields \<^verbatim>\<open>grossAmount\<close>, \<^verbatim>\<open>fee\<close> and
  \<^verbatim>\<open>netAmount\<close> hold the decimal rendering of a BigInt (\<^verbatim>\<open>toString()\<close>), read back with
  \<^verbatim>\<open>BigInt(...)\<close>; the model keeps the integer. The three \<^verbatim>\<open>...Formatted\<close> fields are
  the strings of \<^verbatim>\<open>formatETH\<close> (\<open>None\<close> for a string in exponent notation, see
  \<open>formatETH\<close> below). \<^verbatim>\<open>status\<close> is the constant \<^verbatim>\<open>'completed'\<close> and is left out.
\<close>

record grant =
  grant_id :: string
  recipient :: string
  grantor :: string
  reason :: string
  grossAmount :: int
  grossAmountFormatted :: "string option"
  fee :: int
  feeFormatted :: "string option"
  netAmount :: int
  netAmountFormatted :: "string option"
  fundingTxHash :: string
  distributionTxHash :: string
  mock :: bool
  createdAt :: int

record grantor_stats =
  totalGrants :: nat
  totalAmount :: int

record state =
  grants :: "(string \<times> grant) list"
  grantors :: "(string \<times> grantor_stats) list"
  whitelistCache :: "string set option"
  whitelistCacheTime :: int

definition init_state :: state where
  "init_state = \<lparr>grants = [], grantors = [], whitelistCache = None, whitelistCacheTime = 0\<rparr>"

text \<open>\<^verbatim>\<open>Array.from(grants.values())\<close>\<close>

definition grants_values :: "state \<Rightarrow> grant list" where
  "grants_values s = map snd (grants s)"

subsection \<open>The outside world\<close>

text \<open>
  What the chain provider knows of a transaction (\<^verbatim>\<open>tx.to\<close> is null for a contract
  creation) and of its receipt.
\<close>

record chain_tx =
  tx_to :: "string option"
  tx_from :: string
  tx_value :: int

record chain_receipt =
  receipt_status :: int

text \<open>\<^verbatim>\<open>getWallet()\<close>: no key configured, a key that \<^verbatim>\<open>new ethers.Wallet\<close> rejects, or a wallet.\<close>

datatype wallet_config = NoKey | BadKey string | Wallet

text \<open>
  The answers of the collaborators while one request is handled. A call that throws
  answers \<open>Inl\<close> with the message of the exception. \<^verbatim>\<open>ethers.isAddress\<close> is a parameter:
  its checksum rule needs keccak256. \<open>uuid_mock\<close> and \<open>uuid_id\<close> are the values of
  the two calls of \<^verbatim>\<open>uuidv4()\<close>, \<open>now\<close> is \<^verbatim>\<open>Date.now()\<close> in \<^verbatim>\<open>fetchWhitelist\<close> and
  \<open>now_created\<close> is \<^verbatim>\<open>Date.now()\<close> when the grant object is built.
\<close>

record env =
  isAddress :: "string \<Rightarrow> bool"
  getTransaction :: "string \<Rightarrow> string + chain_tx option"
  getTransactionReceipt :: "string \<Rightarrow> string + chain_receipt option"
  getWallet :: wallet_config
  sendTransaction :: "string \<Rightarrow> int \<Rightarrow> string + string"
  uuid_mock :: string
  uuid_id :: string
  now :: int
  now_created :: int
  fetch_whitelist :: "string list option"

subsection \<open>Requests and responses\<close>

record request =
  req_recipient :: "string option"
  req_amount :: "string option"
  req_reason :: "string option"
  req_txHash :: "string option"
  req_grantor :: "string option"
  req_address :: "string option"
  req_creator :: "string option"
  req_participant :: "string option"
  req_sender :: "string option"
  req_from :: "string option"
  req_mock :: bool

datatype error =
    AddressRequired
  | InviteOnly
  | MissingField
  | InvalidRecipient
  | DuplicateFundingTransaction string
  | TransactionNotFound
  | TransactionNotConfirmed
  | WrongDestination "string option"
  | WalletNotConfigured
  | ServerError string
  | InvalidAddress
  | GrantNotFound

fun http_status :: "error \<Rightarrow> nat" where
  "http_status AddressRequired = 400"
| "http_status InviteOnly = 403"
| "http_status MissingField = 400"
| "http_status InvalidRecipient = 400"
| "http_status (DuplicateFundingTransaction _) = 400"
| "http_status TransactionNotFound = 400"
| "http_status TransactionNotConfirmed = 400"
| "http_status (WrongDestination _) = 400"
| "http_status WalletNotConfigured = 500"
| "http_status (ServerError _) = 500"
| "http_status InvalidAddress = 400"
| "http_status GrantNotFound = 404"

subsection \<open>Whitelist middleware\<close>

text \<open>
  \<^verbatim>\<open>fetchWhitelist\<close>. A \<^verbatim>\<open>Set\<close> object is truthy even when empty, so
  \<^verbatim>\<open>_whitelistCache && ...\<close> asks whether a cache exists. \<open>fetch_whitelist\<close> is \<open>None\<close>
  when the fetch, the JSON decoding or the mapping of the entries throws, and otherwise
  the list of the values \<^verbatim>\<open>e.address || e\<close> of the entries.
\<close>

definition fetchWhitelist :: "env \<Rightarrow> state \<Rightarrow> string set \<times> state" where
  "fetchWhitelist e s =
     (case (if now e - whitelistCacheTime s < WHITELIST_CACHE_TTL
            then whitelistCache s else None) of
        Some c \<Rightarrow> (c, s)
      | None \<Rightarrow>
          (case fetch_whitelist e of
             Some entries \<Rightarrow>
               (let c = set (map toLowerCase entries)
                in (c, s\<lparr>whitelistCache := Some c, whitelistCacheTime := now e\<rparr>))
           | None \<Rightarrow>
               (case whitelistCache s of
                  Some c \<Rightarrow> (c, s)
                | None \<Rightarrow> ({}, s))))"

text \<open>
  \<^verbatim>\<open>requireWhitelist()\<close> with its default \<^verbatim>\<open>addressField = 'address'\<close>. The result is
  the error the middleware answers with, or \<open>None\<close> when it calls \<^verbatim>\<open>next()\<close>.
\<close>

definition whitelist_candidate :: "request \<Rightarrow> string option" where
  "whitelist_candidate r =
     js_or (req_address r) (js_or (req_creator r) (js_or (req_participant r)
       (js_or (req_sender r) (js_or (req_from r) (req_address r)))))"

definition requireWhitelist :: "env \<Rightarrow> request \<Rightarrow> state \<Rightarrow> error option \<times> state" where
  "requireWhitelist e r s =
     (case whitelist_candidate r of
        None \<Rightarrow> (Some AddressRequired, s)
      | Some addr \<Rightarrow>
          if addr = [] then (Some AddressRequired, s)
          else (let (whitelist, s') = fetchWhitelist e s
                in if toLowerCase addr \<notin> whitelist then (Some InviteOnly, s')
                   else (None, s')))"

subsection \<open>Helpers: parsing amounts\<close>

definition is_digit :: "char \<Rightarrow> bool" where
  "is_digit c = ((48::int) \<le> of_char c \<and> of_char c \<le> (57::int))"

definition digit_val :: "char \<Rightarrow> int" where
  "digit_val c = of_char c - 48"

text \<open>\<^verbatim>\<open>BigInt(digits)\<close> on a string of decimal digits.\<close>

definition digits_to_int :: "string \<Rightarrow> int" where
  "digits_to_int ds = foldl (\<lambda>a c. 10 * a + digit_val c) 0 ds"

text \<open>
  \<^verbatim>\<open>ethers.parseEther\<close> (ethers 6, \<^verbatim>\<open>parseUnits(value, 18)\<close>): the string must match
  \<^verbatim>\<open>/^(-?)([0-9]*)\.?([0-9]*)$/\<close> with at least one digit; fractional digits after the
  eighteenth must be zeros; the result must fit the 512-bit signed format. It throws
  otherwise.
\<close>

definition parseEther :: "string \<Rightarrow> string + int" where
  "parseEther v =
     (let negative = (v \<noteq> [] \<and> hd v = CHR ''-'');
          r0 = (if negative then tl v else v);
          whole = takeWhile is_digit r0;
          r1 = dropWhile is_digit r0;
          r2 = (if r1 \<noteq> [] \<and> hd r1 = CHR ''.'' then tl r1 else r1);
          decimal = takeWhile is_digit r2;
          r3 = dropWhile is_digit r2
      in if (whole = [] \<and> decimal = []) \<or> r3 \<noteq> []
         then Inl ''invalid FixedNumber string value''
         else if \<not> list_all (\<lambda>c. c = CHR ''0'') (drop 18 decimal)
         then Inl ''too many decimals for format''
         else (let padded = take 18 (decimal @ replicate 18 CHR ''0'');
                   n = digits_to_int (whole @ padded);
                   val = (if negative then - n else n)
               in if - (2 ^ 511) \<le> val \<and> val < 2 ^ 511 then Inr val
                  else Inl ''overflow''))"

text \<open>\<^verbatim>\<open>String.prototype.replace\<close> with a string pattern replaces the first occurrence.\<close>

fun replace_first :: "string \<Rightarrow> string \<Rightarrow> string \<Rightarrow> string" where
  "replace_first p r [] = (if p = [] then r else [])"
| "replace_first p r (c # cs) =
     (if take (length p) (c # cs) = p then r @ drop (length p) (c # cs)
      else c # replace_first p r cs)"

definition is_space :: "char \<Rightarrow> bool" where
  "is_space c = (of_char c = (32::int) \<or> ((9::int) \<le> of_char c \<and> of_char c \<le> (13::int)))"

definition trim :: "string \<Rightarrow> string" where
  "trim s = rev (dropWhile is_space (rev (dropWhile is_space s)))"

text \<open>\<^verbatim>\<open>parseETH\<close>, lines 61 to 64.\<close>

definition parseETH :: "string \<Rightarrow> string + int" where
  "parseETH ethString = parseEther (trim (replace_first '' ETH'' [] ethString))"

subsection \<open>Helpers: formatting amounts\<close>

text \<open>
  \<^verbatim>\<open>formatETH(wei)\<close> is \<^verbatim>\<open>parseFloat(ethers.formatEther(wei.toString())).toFixed(6) + ' ETH'\<close>.
  \<^verbatim>\<open>formatEther\<close> prints the exact decimal expansion of \<open>wei / 10^18\<close>, and
  \<^verbatim>\<open>parseFloat\<close> reads it as the nearest IEEE 754 binary64 number, ties to even. The
  finite doubles are rationals, so the double is computed exactly, over \<open>rat\<close>.
\<close>

definition pow2 :: "int \<Rightarrow> rat" where
  "pow2 k = (if 0 \<le> k then 2 ^ nat k else 1 / 2 ^ nat (- k))"

text \<open>
  The binary exponent of \<open>a / b\<close> for positive \<open>a\<close> and \<open>b\<close>: \<open>2^e \<le> a / b < 2^(e+1)\<close>.
  \<open>bitlen\<close> is the number of binary digits.
\<close>

definition ilog2 :: "int \<Rightarrow> int \<Rightarrow> int" where
  "ilog2 a b =
     (let e0 = bitlen a - bitlen b
      in if b * 2 ^ nat e0 \<le> a * 2 ^ nat (- e0) then e0 else e0 - 1)"

definition round_half_even :: "rat \<Rightarrow> int" where
  "round_half_even x =
     (let f = \<lfloor>x\<rfloor>; d = x - of_int f
      in if d < 1 / 2 then f
         else if 1 / 2 < d then f + 1
         else if even f then f else f + 1)"

text \<open>
  The double nearest to \<open>a / b\<close>, for \<open>0 \<le> a / b\<close> below the overflow threshold: a
  significand of 53 bits, exponents from \<open>-1022\<close> (below, the subnormal spacing
  \<open>2^-1074\<close>).
\<close>

definition to_double :: "int \<Rightarrow> int \<Rightarrow> rat" where
  "to_double a b =
     (let e = max (ilog2 a b) (- 1022);
          ulp = pow2 (e - 52)
      in of_int (round_half_even (of_int a / of_int b / ulp)) * ulp)"

definition digit_char :: "int \<Rightarrow> char" where
  "digit_char d = char_of (48 + d)"

text \<open>The decimal digits of an integer that is not negative.\<close>

function dec_digits :: "int \<Rightarrow> string" where
  "dec_digits n =
     (if n < 10 then [digit_char n] else dec_digits (n div 10) @ [digit_char (n mod 10)])"
  by pat_completeness auto
termination
  by (relation "measure nat") auto

declare dec_digits.simps [simp del]

text \<open>
  \<^verbatim>\<open>Number.prototype.toFixed(6)\<close> on \<open>0 \<le> x < 10^21\<close>: the integer \<open>n\<close> with
  \<open>n / 10^6\<close> nearest to \<open>x\<close> (the larger of two), its digits padded with zeros to
  seven at least, and a point before the last six.
\<close>

definition toFixed6 :: "rat \<Rightarrow> string" where
  "toFixed6 x =
     (let n = \<lfloor>x * 10 ^ 6 + 1 / 2\<rfloor>;
          m = dec_digits n;
          m' = replicate (7 - length m) CHR ''0'' @ m
      in take (length m' - 6) m' @ ''.'' @ drop (length m' - 6) m')"

text \<open>
  \<^verbatim>\<open>formatETH\<close>, lines 57 to 59. \<^verbatim>\<open>ethers.formatEther\<close> throws for an amount outside
  the 512-bit signed format, that is from \<open>2^511\<close> wei on. For a negative number
  \<^verbatim>\<open>toFixed\<close> prints \<^verbatim>\<open>-\<close> and the digits of its absolute value. From \<open>10^21\<close> on
  \<^verbatim>\<open>toFixed\<close> prints the exponent notation of \<^verbatim>\<open>Number.prototype.toString\<close>: the
  call returns a string, whose characters this model leaves out (\<open>Inr None\<close>). The
  string \<open>''overflow''\<close> stands for the message of the error that is thrown.
\<close>

definition formatETH :: "int \<Rightarrow> string + string option" where
  "formatETH wei =
     (if wei < - (2 ^ 511) \<or> 2 ^ 511 \<le> wei then Inl ''overflow''
      else (let x = to_double \<bar>wei\<bar> (10 ^ 18)
            in Inr (if 10 ^ 21 \<le> x then None
                    else Some ((if wei < 0 then ''-'' else []) @ toFixed6 x @ '' ETH''))))"

text \<open>
  The three calls of \<^verbatim>\<open>formatETH\<close> in the object literal of a grant, in their order;
  the first that throws ends the evaluation.
\<close>

definition format_amounts ::
    "int \<Rightarrow> int \<Rightarrow> int \<Rightarrow> string + string option \<times> string option \<times> string option" where
  "format_amounts fundingAmount fee' netAmount' =
     (case formatETH fundingAmount of
        Inl msg \<Rightarrow> Inl msg
      | Inr grossF \<Rightarrow>
          (case formatETH fee' of
             Inl msg \<Rightarrow> Inl msg
           | Inr feeF \<Rightarrow>
               (case formatETH netAmount' of
                  Inl msg \<Rightarrow> Inl msg
                | Inr netF \<Rightarrow> Inr (grossF, feeF, netF))))"

subsection \<open>POST /grants\<close>

text \<open>\<^verbatim>\<open>a || d\<close> where \<open>d\<close> is a string that is present.\<close>

definition js_or_default :: "string option \<Rightarrow> string \<Rightarrow> string" where
  "js_or_default a d = (case a of None \<Rightarrow> d | Some v \<Rightarrow> if v = [] then d else v)"

text \<open>
  Lines 123 to 147, the part of the handler that runs before its first \<^verbatim>\<open>await\<close>:
  the required fields, the recipient address and the duplicate check. It answers the
  error, or the recipient and the transaction hash to go on with.
\<close>

definition same_funding_tx :: "string \<Rightarrow> grant \<Rightarrow> bool" where
  "same_funding_tx txHash g = (toLowerCase (fundingTxHash g) = toLowerCase txHash)"

definition post_grants_check :: "env \<Rightarrow> request \<Rightarrow> state \<Rightarrow> error + string \<times> string" where
  "post_grants_check e r s =
     (case (req_recipient r, req_txHash r) of
        (Some recipient', Some txHash) \<Rightarrow>
          if recipient' = [] \<or> txHash = [] then Inl MissingField
          else if \<not> isAddress e recipient' then Inl InvalidRecipient
          else (case find (same_funding_tx txHash) (grants_values s) of
                  Some existingGrant \<Rightarrow>
                    Inl (DuplicateFundingTransaction (grant_id existingGrant))
                | None \<Rightarrow> Inr (recipient', txHash))
      | _ \<Rightarrow> Inl MissingField)"

text \<open>
  Verification of the funding transaction, lines 155 to 174 (and again lines 336 to 350
  of the test endpoint): the amount and the sender of the transaction.
\<close>

definition verify_transaction :: "env \<Rightarrow> string \<Rightarrow> error + int \<times> string" where
  "verify_transaction e txHash =
     (case getTransaction e txHash of
        Inl msg \<Rightarrow> Inl (ServerError msg)
      | Inr None \<Rightarrow> Inl TransactionNotFound
      | Inr (Some tx) \<Rightarrow>
          (case getTransactionReceipt e txHash of
             Inl msg \<Rightarrow> Inl (ServerError msg)
           | Inr None \<Rightarrow> Inl TransactionNotConfirmed
           | Inr (Some receipt) \<Rightarrow>
               if receipt_status receipt \<noteq> 1 then Inl TransactionNotConfirmed
               else if map_option toLowerCase (tx_to tx) \<noteq> Some (toLowerCase TREASURY_ADDRESS)
               then Inl (WrongDestination (tx_to tx))
               else Inr (tx_value tx, tx_from tx)))"

text \<open>Lines 153 to 179: the funding amount and its sender, live or mock.\<close>

definition funding :: "env \<Rightarrow> request \<Rightarrow> string \<Rightarrow> error + int \<times> string" where
  "funding e r txHash =
     (if \<not> req_mock r then verify_transaction e txHash
      else (case (case req_amount r of
                    None \<Rightarrow> parseEther ''0.01''
                  | Some amount \<Rightarrow> if amount = [] then parseEther ''0.01'' else parseETH amount) of
              Inl msg \<Rightarrow> Inl (ServerError msg)
            | Inr fundingAmount \<Rightarrow>
                Inr (fundingAmount, js_or_default (req_grantor r) (''0x'' @ replicate 40 CHR ''1''))))"

text \<open>Lines 185 to 200 (and 358 to 366): the transfer to the recipient, or its mock.\<close>

definition send_grant :: "env \<Rightarrow> string \<Rightarrow> int \<Rightarrow> error + string" where
  "send_grant e to' val =
     (case getWallet e of
        NoKey \<Rightarrow> Inl WalletNotConfigured
      | BadKey msg \<Rightarrow> Inl (ServerError msg)
      | Wallet \<Rightarrow>
          (case sendTransaction e to' val of
             Inl msg \<Rightarrow> Inl (ServerError msg)
           | Inr hash \<Rightarrow> Inr hash))"

definition distribute :: "env \<Rightarrow> request \<Rightarrow> string \<Rightarrow> int \<Rightarrow> error + string" where
  "distribute e r recipient' netAmount' =
     (if \<not> req_mock r then send_grant e recipient' netAmount'
      else Inr (''0xmock'' @ filter (\<lambda>c. c \<noteq> CHR ''-'') (uuid_mock e)))"

text \<open>Lines 220 to 229: the grant is stored and the stats of its grantor are updated.\<close>

definition track_grantor :: "string \<Rightarrow> int \<Rightarrow> (string \<times> grantor_stats) list
    \<Rightarrow> (string \<times> grantor_stats) list" where
  "track_grantor grantorAddr fundingAmount m =
     (let m' = (if map_of m grantorAddr = None
                then AList.update grantorAddr \<lparr>totalGrants = 0, totalAmount = 0\<rparr> m else m)
      in case map_of m' grantorAddr of
           None \<Rightarrow> m'
         | Some stats \<Rightarrow>
             AList.update grantorAddr
               (stats\<lparr>totalGrants := totalGrants stats + 1,
                      totalAmount := totalAmount stats + fundingAmount\<rparr>) m')"

definition record_grant :: "grant \<Rightarrow> int \<Rightarrow> state \<Rightarrow> state" where
  "record_grant g fundingAmount s =
     s\<lparr>grants := AList.update (grant_id g) g (grants s),
       grantors := track_grantor (grantor g) fundingAmount (grantors s)\<rparr>"

text \<open>
  Lines 149 to 243, the rest of the handler: funding, fee, distribution, record. An
  exception inside the \<^verbatim>\<open>try\<close> block is answered with status 500; \<^verbatim>\<open>formatETH\<close> is
  first called when the grant object is built, after the transfer.
\<close>

definition post_grants_complete ::
    "env \<Rightarrow> request \<Rightarrow> string \<Rightarrow> string \<Rightarrow> state \<Rightarrow> (error + grant) \<times> state" where
  "post_grants_complete e r recipient' txHash s =
     (case funding e r txHash of
        Inl err \<Rightarrow> (Inl err, s)
      | Inr (fundingAmount, txFrom) \<Rightarrow>
          (let fee' = bigint_div (fundingAmount * FEE_PERCENT) 100;
               netAmount' = fundingAmount - fee'
           in case distribute e r recipient' netAmount' of
                Inl err \<Rightarrow> (Inl err, s)
              | Inr distributeTxHash \<Rightarrow>
                  (case format_amounts fundingAmount fee' netAmount' of
                     Inl msg \<Rightarrow> (Inl (ServerError msg), s)
                   | Inr (grossF, feeF, netF) \<Rightarrow>
                       (let g = \<lparr>grant_id = uuid_id e,
                                 recipient = toLowerCase recipient',
                                 grantor = toLowerCase (js_or_default (req_grantor r) txFrom),
                                 reason = js_or_default (req_reason r) ''Direct grant'',
                                 grossAmount = fundingAmount,
                                 grossAmountFormatted = grossF,
                                 fee = fee',
                                 feeFormatted = feeF,
                                 netAmount = netAmount',
                                 netAmountFormatted = netF,
                                 fundingTxHash = txHash,
                                 distributionTxHash = distributeTxHash,
                                 mock = req_mock r,
                                 createdAt = now_created e\<rparr>
                        in (Inr g, record_grant g fundingAmount s)))))"

definition post_grants_handler :: "env \<Rightarrow> request \<Rightarrow> state \<Rightarrow> (error + grant) \<times> state" where
  "post_grants_handler e r s =
     (case post_grants_check e r s of
        Inl err \<Rightarrow> (Inl err, s)
      | Inr (recipient', txHash) \<Rightarrow> post_grants_complete e r recipient' txHash s)"

text \<open>The route: \<^verbatim>\<open>app.post('/grants', requireWhitelist(), handler)\<close>.\<close>

definition post_grants :: "env \<Rightarrow> request \<Rightarrow> state \<Rightarrow> (error + grant) \<times> state" where
  "post_grants e r s =
     (case requireWhitelist e r s of
        (Some err, s') \<Rightarrow> (Inl err, s')
      | (None, s') \<Rightarrow> post_grants_handler e r s')"

subsection \<open>POST /test/e2e\<close>

text \<open>
  Lines 317 to 413. \<^verbatim>\<open>formatETH(fundingAmount)\<close> is called for the list of steps (line
  351) before the wallet is asked for, and again when the grant object is built.
\<close>

definition post_e2e :: "env \<Rightarrow> request \<Rightarrow> state \<Rightarrow> (error + grant) \<times> state" where
  "post_e2e e r s =
     (case req_txHash r of
        None \<Rightarrow> (Inl MissingField, s)
      | Some txHash \<Rightarrow>
          if txHash = [] then (Inl MissingField, s)
          else (let targetRecipient = js_or_default (req_recipient r) TREASURY_ADDRESS
                in case verify_transaction e txHash of
                     Inl err \<Rightarrow> (Inl err, s)
                   | Inr (fundingAmount, txFrom) \<Rightarrow>
                       (case formatETH fundingAmount of
                          Inl msg \<Rightarrow> (Inl (ServerError msg), s)
                        | Inr verified \<Rightarrow>
                            (let fee' = bigint_div (fundingAmount * FEE_PERCENT) 100;
                                 netAmount' = fundingAmount - fee'
                             in case send_grant e targetRecipient netAmount' of
                                  Inl err \<Rightarrow> (Inl err, s)
                                | Inr distributeTxHash \<Rightarrow>
                                    (case format_amounts fundingAmount fee' netAmount' of
                                       Inl msg \<Rightarrow> (Inl (ServerError msg), s)
                                     | Inr (grossF, feeF, netF) \<Rightarrow>
                                         (let g = \<lparr>grant_id = uuid_id e,
                                                   recipient = toLowerCase targetRecipient,
                                                   grantor = toLowerCase txFrom,
                                                   reason = ''E2E Test Grant'',
                                                   grossAmount = fundingAmount,
                                                   grossAmountFormatted = grossF,
                                                   fee = fee',
                                                   feeFormatted = feeF,
                                                   netAmount = netAmount',
                                                   netAmountFormatted = netF,
                                                   fundingTxHash = txHash,
                                                   distributionTxHash = distributeTxHash,
                                                   mock = False,
                                                   createdAt = now_created e\<rparr>
                                          in (Inr g,
                                              s\<lparr>grants :=
                                                  AList.update (grant_id g) g (grants s)\<rparr>)))))))"

subsection \<open>GET /grants\<close>

record list_query =
  q_recipient :: "string option"
  q_grantor :: "string option"
  q_limit :: "string option"

text \<open>
  \<^verbatim>\<open>parseInt(limit)\<close>: leading white space, a sign, the prefix \<^verbatim>\<open>0x\<close> for radix 16, then
  the longest run of digits; \<open>None\<close> is NaN. The result is the exact integer:
  \<^verbatim>\<open>parseInt\<close> rounds it to a double, which differs only from \<open>2^53\<close> on, far above the
  length of any array.
\<close>

definition is_hex_digit :: "char \<Rightarrow> bool" where
  "is_hex_digit c =
     (is_digit c \<or> ((97::int) \<le> of_char c \<and> of_char c \<le> (102::int))
        \<or> ((65::int) \<le> of_char c \<and> of_char c \<le> (70::int)))"

definition hex_val :: "char \<Rightarrow> int" where
  "hex_val c =
     (if is_digit c then of_char c - 48
      else if (97::int) \<le> of_char c then of_char c - 87
      else of_char c - 55)"

definition parseInt :: "string \<Rightarrow> int option" where
  "parseInt inputString =
     (let s0 = dropWhile is_space inputString;
          negative = (s0 \<noteq> [] \<and> hd s0 = CHR ''-'');
          s1 = (if s0 \<noteq> [] \<and> (hd s0 = CHR ''-'' \<or> hd s0 = CHR ''+'') then tl s0 else s0);
          hex = (take 2 s1 = ''0x'' \<or> take 2 s1 = ''0X'');
          s2 = (if hex then drop 2 s1 else s1);
          z = (if hex then takeWhile is_hex_digit s2 else takeWhile is_digit s2);
          mathInt = (if hex then foldl (\<lambda>a c. 16 * a + hex_val c) 0 z
                     else foldl (\<lambda>a c. 10 * a + digit_val c) 0 z)
      in if z = [] then None
         else Some (if negative then - mathInt else mathInt))"

text \<open>
  \<^verbatim>\<open>results.slice(0, end)\<close>: NaN counts as 0, a negative \<^verbatim>\<open>end\<close> counts from the end
  of the array.
\<close>

definition slice0 :: "'a list \<Rightarrow> int option \<Rightarrow> 'a list" where
  "slice0 xs end' =
     (case end' of
        None \<Rightarrow> []
      | Some n \<Rightarrow> if n < 0 then take (nat (int (length xs) + n)) xs else take (nat n) xs)"

text \<open>
  \<^verbatim>\<open>results.sort((a, b) => b.createdAt - a.createdAt)\<close>: \<^verbatim>\<open>Array.prototype.sort\<close> is
  stable, and so is \<open>sort_key\<close>.
\<close>

definition sort_by_createdAt_desc :: "grant list \<Rightarrow> grant list" where
  "sort_by_createdAt_desc results = sort_key (\<lambda>g. - createdAt g) results"

definition get_grants :: "list_query \<Rightarrow> state \<Rightarrow> grant list" where
  "get_grants q s =
     (let results = grants_values s;
          results1 = (case q_recipient q of
                        None \<Rightarrow> results
                      | Some r \<Rightarrow> if r = [] then results
                                  else filter (\<lambda>g. recipient g = toLowerCase r) results);
          results2 = (case q_grantor q of
                        None \<Rightarrow> results1
                      | Some a \<Rightarrow> if a = [] then results1
                                  else filter (\<lambda>g. grantor g = toLowerCase a) results1);
          results3 = sort_by_createdAt_desc results2
      in case q_limit q of
           None \<Rightarrow> results3
         | Some l \<Rightarrow> if l = [] then results3 else slice0 results3 (parseInt l))"

subsection \<open>GET /grantors/:address\<close>

text \<open>
  The answer of the endpoint. \<open>gr_totalAmount\<close> is the integer whose decimal digits the
  answer carries; \<open>gr_recentGrants\<close> is absent from the answer for an address without
  stats. The handler has no \<^verbatim>\<open>try\<close>: an exception of \<^verbatim>\<open>formatETH\<close> reaches the error
  handler of Express, which answers 500.
\<close>

record grantor_response =
  gr_address :: string
  gr_totalGrants :: nat
  gr_totalAmount :: int
  gr_totalAmountFormatted :: "string option"
  gr_recentGrants :: "grant list option"

definition get_grantor :: "env \<Rightarrow> string \<Rightarrow> state \<Rightarrow> error + grantor_response" where
  "get_grantor e address s =
     (if \<not> isAddress e address then Inl InvalidAddress
      else (case map_of (grantors s) (toLowerCase address) of
              None \<Rightarrow>
                Inr \<lparr>gr_address = toLowerCase address, gr_totalGrants = 0, gr_totalAmount = 0,
                     gr_totalAmountFormatted = Some ''0 ETH'', gr_recentGrants = None\<rparr>
            | Some stats \<Rightarrow>
                (let grantorGrants =
                       sort_by_createdAt_desc
                         (filter (\<lambda>g. grantor g = toLowerCase address) (grants_values s))
                 in case formatETH (totalAmount stats) of
                      Inl msg \<Rightarrow> Inl (ServerError msg)
                    | Inr formatted \<Rightarrow>
                        Inr \<lparr>gr_address = toLowerCase address,
                             gr_totalGrants = totalGrants stats,
                             gr_totalAmount = totalAmount stats,
                             gr_totalAmountFormatted = formatted,
                             gr_recentGrants = Some (take 10 grantorGrants)\<rparr>)))"

subsection \<open>GET /stats\<close>

record stats_response =
  st_totalGrants :: nat
  st_totalGranted :: "string option"
  st_totalFees :: "string option"
  st_uniqueRecipients :: nat
  st_uniqueGrantors :: nat

text \<open>Lines 419 to 431; an exception of \<^verbatim>\<open>formatETH\<close> is answered 500, as above.\<close>

definition get_stats :: "state \<Rightarrow> error + stats_response" where
  "get_stats s =
     (let allGrants = grants_values s;
          totalGranted = foldl (\<lambda>sum g. sum + netAmount g) 0 allGrants;
          totalFees = foldl (\<lambda>sum g. sum + fee g) 0 allGrants
      in case formatETH totalGranted of
           Inl msg \<Rightarrow> Inl (ServerError msg)
         | Inr granted \<Rightarrow>
             (case formatETH totalFees of
                Inl msg \<Rightarrow> Inl (ServerError msg)
              | Inr fees \<Rightarrow>
                  Inr \<lparr>st_totalGrants = length allGrants,
                       st_totalGranted = granted,
                       st_totalFees = fees,
                       st_uniqueRecipients = card (set (map recipient allGrants)),
                       st_uniqueGrantors = length (grantors s)\<rparr>))"

subsection \<open>Runs of the service\<close>

text \<open>
  The states the service can be in: it starts empty, and only the two POST routes write.
  \<^verbatim>\<open>uuidv4()\<close> is taken to return an identifier that no stored grant has.
\<close>

inductive reachable :: "state \<Rightarrow> bool" where
  reachable_init: "reachable init_state"
| reachable_post_grants:
    "reachable s \<Longrightarrow> uuid_id e \<notin> fst ` set (grants s) \<Longrightarrow> reachable (snd (post_grants e r s))"
| reachable_post_e2e:
    "reachable s \<Longrightarrow> uuid_id e \<notin> fst ` set (grants s) \<Longrightarrow> reachable (snd (post_e2e e r s))"

text \<open>
  Requests in flight. Node runs a handler without interruption from one \<^verbatim>\<open>await\<close> to
  the next. A live POST /grants request that has passed the middleware runs
  \<open>post_grants_check\<close> on arrival and is suspended at \<^verbatim>\<open>await getTransaction\<close>; the
  code after that (two more \<^verbatim>\<open>await\<close>s, none of which reads or writes the two maps
  before line 220) is \<open>post_grants_complete\<close>, run when the request is resumed. A mock
  request has no \<^verbatim>\<open>await\<close> and runs to its answer on arrival. Requests are numbered;
  \<open>reqs i\<close> is request \<open>i\<close> with the answers the outside world gives it.
\<close>

datatype event = Arrive nat | Resume nat

record sys =
  ledger :: state
  waiting :: "(nat \<times> string \<times> string) list"
  answers :: "(nat \<times> (error + grant)) list"

definition event_step :: "(nat \<Rightarrow> env \<times> request) \<Rightarrow> sys \<Rightarrow> event \<Rightarrow> sys" where
  "event_step reqs y ev =
     (case ev of
        Arrive i \<Rightarrow>
          (let (e, r) = reqs i
           in if req_mock r
              then (let (a, s') = post_grants_handler e r (ledger y)
                    in y\<lparr>ledger := s', answers := answers y @ [(i, a)]\<rparr>)
              else (case post_grants_check e r (ledger y) of
                      Inl err \<Rightarrow> y\<lparr>answers := answers y @ [(i, Inl err)]\<rparr>
                    | Inr (recipient', txHash) \<Rightarrow>
                        y\<lparr>waiting := waiting y @ [(i, recipient', txHash)]\<rparr>))
      | Resume i \<Rightarrow>
          (case map_of (waiting y) i of
             None \<Rightarrow> y
           | Some (recipient', txHash) \<Rightarrow>
               (let (e, r) = reqs i;
                    (a, s') = post_grants_complete e r recipient' txHash (ledger y)
                in y\<lparr>ledger := s', waiting := AList.delete i (waiting y),
                      answers := answers y @ [(i, a)]\<rparr>)))"

definition run_events :: "(nat \<Rightarrow> env \<times> request) \<Rightarrow> event list \<Rightarrow> state \<Rightarrow> sys" where
  "run_events reqs evs s = foldl (event_step reqs) \<lparr>ledger = s, waiting = [], answers = []\<rparr> evs"

subsection \<open>The listing as the specification words it\<close>

text \<open>
  The records a query asks for: a filter that is given compares addresses without regard
  to case.
\<close>

definition matches_query :: "list_query \<Rightarrow> grant \<Rightarrow> bool" where
  "matches_query q g =
     ((case q_recipient q of
         None \<Rightarrow> True
       | Some r \<Rightarrow> r = [] \<or> toLowerCase (recipient g) = toLowerCase r)
      \<and> (case q_grantor q of
            None \<Rightarrow> True
          | Some a \<Rightarrow> a = [] \<or> toLowerCase (grantor g) = toLowerCase a))"

subsection \<open>Invariants of the stored records\<close>

text \<open>Both POST routes store the recipient and the grantor in lower case.\<close>

definition lowercase_addresses :: "state \<Rightarrow> bool" where
  "lowercase_addresses s =
     list_all (\<lambda>g. toLowerCase (recipient g) = recipient g \<and> toLowerCase (grantor g) = grantor g)
       (grants_values s)"

text \<open>Every address with stats is the grantor of a stored grant.\<close>

definition grantors_have_grants :: "state \<Rightarrow> bool" where
  "grantors_have_grants s = list_all (\<lambda>a. a \<in> grantor ` set (grants_values s)) (map fst (grantors s))"

subsection \<open>Example data\<close>

text \<open>
  \<^verbatim>\<open>ethers.isAddress\<close> on strings of one case: \<^verbatim>\<open>0x\<close> and forty hexadecimal digits,
  the letters all small or all capital, are an address. (For letters of both cases the
  answer depends on the keccak checksum; the examples pass no such string to it.)
\<close>

definition single_case_address :: "string \<Rightarrow> bool" where
  "single_case_address a =
     (length a = 42 \<and> take 2 a = ''0x''
      \<and> (list_all (\<lambda>c. is_digit c \<or> ((97::int) \<le> of_char c \<and> of_char c \<le> (102::int))) (drop 2 a)
         \<or> list_all (\<lambda>c. is_digit c \<or> ((65::int) \<le> of_char c \<and> of_char c \<le> (70::int))) (drop 2 a)))"

definition example_tx_hash :: string where
  "example_tx_hash = ''0xFEED000000000000000000000000000000000000000000000000000000000001''"

definition example_tx_hash_lower :: string where
  "example_tx_hash_lower = ''0xfeed000000000000000000000000000000000000000000000000000000000001''"

text \<open>
  A chain on which the transaction \<open>example_tx_hash\<close> sent 0.01 ether to the treasury
  and is confirmed, a wallet whose transfers are accepted, and a whitelist source that
  lists one address.
\<close>

definition example_env :: env where
  "example_env =
     \<lparr>isAddress = single_case_address,
      getTransaction = (\<lambda>h. if toLowerCase h = example_tx_hash_lower
         then Inr (Some \<lparr>tx_to = Some TREASURY_ADDRESS,
                          tx_from = ''0xd8dA6BF26964aF9D7eEd9e03E53415D37aA96045'',
                          tx_value = 10 ^ 16\<rparr>)
         else Inr None),
      getTransactionReceipt = (\<lambda>h. Inr (Some \<lparr>receipt_status = 1\<rparr>)),
      getWallet = Wallet,
      sendTransaction = (\<lambda>to' val. Inr ''0xd157''),
      uuid_mock = ''6f1c-22aa'',
      uuid_id = ''id-1'',
      now = 1000,
      now_created = 1001,
      fetch_whitelist = Some [''0xBBBBBBBBBBBBBBBBBBBBBBBBBBBBBBBBBBBBBBBB'']\<rparr>"

definition example_request :: request where
  "example_request =
     \<lparr>req_recipient = Some ''0xcccccccccccccccccccccccccccccccccccccccc'',
      req_amount = None, req_reason = None,
      req_txHash = Some example_tx_hash,
      req_grantor = None,
      req_address = Some ''0xbbbbbbbbbbbbbbbbbbbbbbbbbbbbbbbbbbbbbbbb'',
      req_creator = None, req_participant = None, req_sender = None, req_from = None,
      req_mock = False\<rparr>"

definition example_grant :: grant where
  "example_grant =
     \<lparr>grant_id = ''id-1'',
      recipient = ''0xcccccccccccccccccccccccccccccccccccccccc'',
      grantor = ''0xd8da6bf26964af9d7eed9e03e53415d37aa96045'',
      reason = ''Direct grant'',
      grossAmount = 10000000000000000, grossAmountFormatted = Some ''0.010000 ETH'',
      fee = 500000000000000, feeFormatted = Some ''0.000500 ETH'',
      netAmount = 9500000000000000, netAmountFormatted = Some ''0.009500 ETH'',
      fundingTxHash = example_tx_hash, distributionTxHash = ''0xd157'', mock = False,
      createdAt = 1001\<rparr>"

text \<open>The state after \<open>example_request\<close> was served on the empty service.\<close>

definition example_state :: state where
  "example_state =
     \<lparr>grants = [(''id-1'', example_grant)],
      grantors = [(''0xd8da6bf26964af9d7eed9e03e53415d37aa96045'',
                   \<lparr>totalGrants = 1, totalAmount = 10000000000000000\<rparr>)],
      whitelistCache = Some {''0xbbbbbbbbbbbbbbbbbbbbbbbbbbbbbbbbbbbbbbbb''},
      whitelistCacheTime = 1000\<rparr>"

text \<open>The grant and the state after \<open>example_request\<close> was posted to /test/e2e instead.\<close>

definition e2e_grant :: grant where
  "e2e_grant = example_grant\<lparr>reason := ''E2E Test Grant''\<rparr>"

definition e2e_state :: state where
  "e2e_state = init_state\<lparr>grants := [(''id-1'', e2e_grant)]\<rparr>"

text \<open>A moment at which the whitelist cache has expired and the whitelist source is down.\<close>

definition stale_env :: env where
  "stale_env = example_env\<lparr>fetch_whitelist := None, now := 1000000\<rparr>"

text \<open>A second request with the transaction hash of \<open>example_request\<close>, in lower case.\<close>

definition duplicate_request :: request where
  "duplicate_request = example_request\<lparr>req_txHash := Some example_tx_hash_lower\<rparr>"

text \<open>The same outside world for a later request: another uuid, a later clock.\<close>

definition second_env :: env where
  "second_env = example_env\<lparr>uuid_id := ''id-2'', uuid_mock := ''70aa-0002'', now_created := 2002\<rparr>"

definition third_env :: env where
  "third_env = example_env\<lparr>uuid_id := ''id-3'', uuid_mock := ''70aa-0003'', now_created := 3003\<rparr>"

text \<open>Two live requests with the same body, so the same \<^verbatim>\<open>txHash\<close>.\<close>

definition two_requests :: "nat \<Rightarrow> env \<times> request" where
  "two_requests i = (if i = 0 then (example_env, example_request) else (second_env, example_request))"

text \<open>
  Two requests in mock mode (\<^verbatim>\<open>?mock=true\<close>): one for another recipient, with an
  amount of its own, and one for the same recipient, with no amount. Then the grants
  they are answered with and the states after them.
\<close>

definition second_request :: request where
  "second_request =
     example_request\<lparr>req_recipient := Some ''0xdddddddddddddddddddddddddddddddddddddddd'',
       req_amount := Some ''2.5 ETH'',
       req_txHash := Some ''0xbeef000000000000000000000000000000000000000000000000000000000002'',
       req_mock := True\<rparr>"

definition third_request :: request where
  "third_request =
     example_request\<lparr>req_txHash := Some ''0xcafe000000000000000000000000000000000000000000000000000000000003'',
       req_mock := True\<rparr>"

definition second_grant :: grant where
  "second_grant =
     \<lparr>grant_id = ''id-2'',
      recipient = ''0xdddddddddddddddddddddddddddddddddddddddd'',
      grantor = ''0x1111111111111111111111111111111111111111'',
      reason = ''Direct grant'',
      grossAmount = 2500000000000000000, grossAmountFormatted = Some ''2.500000 ETH'',
      fee = 125000000000000000, feeFormatted = Some ''0.125000 ETH'',
      netAmount = 2375000000000000000, netAmountFormatted = Some ''2.375000 ETH'',
      fundingTxHash = ''0xbeef000000000000000000000000000000000000000000000000000000000002'',
      distributionTxHash = ''0xmock70aa0002'', mock = True,
      createdAt = 2002\<rparr>"

definition third_grant :: grant where
  "third_grant =
     second_grant\<lparr>grant_id := ''id-3'',
       recipient := ''0xcccccccccccccccccccccccccccccccccccccccc'',
       grossAmount := 10000000000000000, grossAmountFormatted := Some ''0.010000 ETH'',
       fee := 500000000000000, feeFormatted := Some ''0.000500 ETH'',
       netAmount := 9500000000000000, netAmountFormatted := Some ''0.009500 ETH'',
       fundingTxHash := ''0xcafe000000000000000000000000000000000000000000000000000000000003'',
       distributionTxHash := ''0xmock70aa0003'',
       createdAt := 3003\<rparr>"

definition second_state :: state where
  "second_state =
     example_state\<lparr>grants := [(''id-1'', example_grant), (''id-2'', second_grant)],
       grantors := [(''0xd8da6bf26964af9d7eed9e03e53415d37aa96045'',
                     \<lparr>totalGrants = 1, totalAmount = 10000000000000000\<rparr>),
                    (''0x1111111111111111111111111111111111111111'',
                     \<lparr>totalGrants = 1, totalAmount = 2500000000000000000\<rparr>)]\<rparr>"

definition third_state :: state where
  "third_state =
     example_state\<lparr>grants := [(''id-1'', example_grant), (''id-2'', second_grant),
                               (''id-3'', third_grant)],
       grantors := [(''0xd8da6bf26964af9d7eed9e03e53415d37aa96045'',
                     \<lparr>totalGrants = 1, totalAmount = 10000000000000000\<rparr>),
                    (''0x1111111111111111111111111111111111111111'',
                     \<lparr>totalGrants = 2, totalAmount = 2510000000000000000\<rparr>)]\<rparr>"

text \<open>A listing query: a recipient in capital letters, and a limit of one record.\<close>

definition example_query :: list_query where
  "example_query = \<lparr>q_recipient = Some ''0xCCCCCCCCCCCCCCCCCCCCCCCCCCCCCCCCCCCCCCCC'',
     q_grantor = None, q_limit = Some ''1''\<rparr>"

text \<open>The listing of all records but for a limit of \<^verbatim>\<open>-1\<close>.\<close>

definition negative_limit_query :: list_query where
  "negative_limit_query = \<lparr>q_recipient = None, q_grantor = None, q_limit = Some ''-1''\<rparr>"

text \<open>
  Two requests in mock mode whose amount is \<open>2^511 - 1\<close> wei, the largest that
  \<^verbatim>\<open>parseEther\<close> accepts, and the state after them: the total of their grantor is beyond
  what \<^verbatim>\<open>formatEther\<close> accepts.
\<close>

definition large_request :: request where
  "large_request =
     example_request\<lparr>req_txHash := Some ''0xdead000000000000000000000000000000000000000000000000000000000004'',
       req_amount := Some ''6703903964971298549787012499102923063739682910296196688861780721860882015036773488400937149083451713845015929093243025426876941405973284.973216824503042047'',
       req_mock := True\<rparr>"

definition large_state :: state where
  "large_state =
     snd (post_grants third_env
            (large_request\<lparr>req_txHash := Some ''0xdead000000000000000000000000000000000000000000000000000000000005''\<rparr>)
            (snd (post_grants second_env large_request init_state)))"

section \<open>Properties\<close>

subsection \<open>Lower case, bit by bit\<close>

text \<open>
  \<open>toLowerChar\<close> on the eight bits of a character: the letters \<^verbatim>\<open>A\<close> to \<^verbatim>\<open>Z\<close> are the
  codes 65 to 90, and adding 32 sets the bit of weight 32. As a code equation it lets the
  examples below evaluate without arithmetic on character codes.
\<close>

lemma toLowerChar_bits [code]:
  "toLowerChar (Char b0 b1 b2 b3 b4 b5 b6 b7) =
     (if \<not> b7 \<and> b6 \<and> \<not> b5 \<and> (b0 \<or> b1 \<or> b2 \<or> b3 \<or> b4)
         \<and> \<not> (b4 \<and> b3 \<and> (b2 \<or> (b1 \<and> b0)))
      then Char b0 b1 b2 b3 b4 True b6 b7 else Char b0 b1 b2 b3 b4 b5 b6 b7)"
  by (cases b0; cases b1; cases b2; cases b3; cases b4; cases b5; cases b6; cases b7;
      simp add: toLowerChar_def char_of_eq_iff)

subsection \<open>Formatting and parsing amounts\<close>

lemma round_half_even_bound: "\<bar>of_int (round_half_even x) - x\<bar> \<le> 1 / 2"
proof -
  define f where "f = \<lfloor>x\<rfloor>"
  have b: "of_int f \<le> x" "x < of_int f + 1"
    unfolding f_def by linarith+
  consider "x - of_int f < 1 / 2" | "1 / 2 < x - of_int f" | "x - of_int f = 1 / 2"
    by linarith
  then show ?thesis
  proof cases
    case 1
    then have "round_half_even x = f"
      by (simp add: round_half_even_def Let_def f_def)
    with 1 b show ?thesis by simp
  next
    case 2
    then have "round_half_even x = f + 1"
      by (simp add: round_half_even_def Let_def f_def)
    with 2 b show ?thesis by simp
  next
    case 3
    then have "round_half_even x = f \<or> round_half_even x = f + 1"
      by (simp add: round_half_even_def Let_def f_def)
    with 3 b show ?thesis by auto
  qed
qed

lemma pow2_pos: "0 < pow2 k"
  by (simp add: pow2_def)

lemma pow2_mono: "j \<le> k \<Longrightarrow> pow2 j \<le> pow2 k"
proof -
  have p: "pow2 i = 2 powi i" for i
    by (simp add: pow2_def power_int_def inverse_eq_divide power_one_over)
  assume "j \<le> k"
  then have "(2::rat) powi j \<le> 2 powi k"
    by (intro power_int_increasing) simp_all
  then show ?thesis by (simp add: p)
qed

lemma to_double_error:
  assumes "0 < b"
  shows "\<bar>to_double a b - of_int a / of_int b\<bar> \<le> pow2 (max (ilog2 a b) (- 1022) - 52) / 2"
proof -
  define u where "u = pow2 (max (ilog2 a b) (- 1022) - 52)"
  define q :: rat where "q = of_int a / of_int b"
  have u: "0 < u" by (simp add: u_def pow2_pos)
  have "\<bar>of_int (round_half_even (q / u)) - q / u\<bar> \<le> 1 / 2"
    by (rule round_half_even_bound)
  then have "\<bar>of_int (round_half_even (q / u)) - q / u\<bar> * u \<le> 1 / 2 * u"
    using u by (intro mult_right_mono) simp_all
  moreover have "(of_int (round_half_even (q / u)) - q / u) * u
      = of_int (round_half_even (q / u)) * u - q"
    using u by (simp add: left_diff_distrib)
  then have "\<bar>of_int (round_half_even (q / u)) - q / u\<bar> * u
      = \<bar>of_int (round_half_even (q / u)) * u - q\<bar>"
    using u by (metis abs_mult abs_of_pos)
  ultimately have "\<bar>of_int (round_half_even (q / u)) * u - q\<bar> \<le> u / 2"
    by simp
  then show ?thesis
    by (simp add: to_double_def Let_def u_def q_def)
qed

lemma ilog2_le:
  assumes "0 \<le> a" "0 < b" "a < b * 2 ^ 33"
  shows "ilog2 a b \<le> 32"
proof (cases "a = 0")
  case True
  have "0 \<le> bitlen b" by (rule bitlen_nonneg)
  with True show ?thesis
    by (simp add: ilog2_def Let_def)
next
  case False
  with assms have a: "0 < a" by simp
  have la: "2 ^ nat (bitlen a - 1) \<le> a"
    using bitlen_bounds [OF a] by simp
  have lb: "b < 2 ^ nat (bitlen b)"
    using bitlen_bounds [OF assms(2)] by simp
  have "b * 2 ^ 33 < 2 ^ nat (bitlen b) * 2 ^ 33"
    using lb by simp
  with assms(3) have "a < 2 ^ nat (bitlen b) * 2 ^ 33"
    by (rule less_trans)
  then have "(2::int) ^ nat (bitlen a - 1) < 2 ^ (nat (bitlen b) + 33)"
    using la by (simp add: power_add)
  then have "nat (bitlen a - 1) < nat (bitlen b) + 33"
    by simp
  then have e0: "bitlen a - bitlen b \<le> 33"
    using bitlen_nonneg [of b] by linarith
  show ?thesis
  proof (cases "bitlen a - bitlen b = 33")
    case True
    with assms(3) show ?thesis
      by (simp add: ilog2_def Let_def)
  next
    case False
    with e0 show ?thesis
      by (auto simp: ilog2_def Let_def)
  qed
qed


lemma digit_char_digit:
  assumes "0 \<le> d" "d \<le> 9"
  shows "is_digit (digit_char d)" and "digit_val (digit_char d) = d"
  using assms by (simp_all add: is_digit_def digit_val_def digit_char_def)

lemma dec_digits_digits: "0 \<le> n \<Longrightarrow> list_all is_digit (dec_digits n)"
proof (induction n rule: dec_digits.induct)
  case (1 n)
  show ?case
  proof (cases "n < 10")
    case True
    with 1 show ?thesis
      by (subst dec_digits.simps) (simp add: digit_char_digit)
  next
    case False
    with 1 have "list_all is_digit (dec_digits (n div 10))" by simp
    moreover have "is_digit (digit_char (n mod 10))"
      by (rule digit_char_digit) simp_all
    ultimately show ?thesis
      using False by (subst dec_digits.simps) simp
  qed
qed

lemma digits_to_int_acc:
  "foldl (\<lambda>a c. 10 * a + digit_val c) a xs = a * 10 ^ length xs + digits_to_int xs"
  unfolding digits_to_int_def
proof (induction xs arbitrary: a)
  case Nil
  show ?case by simp
next
  case (Cons x xs)
  have 1: "foldl (\<lambda>a c. 10 * a + digit_val c) (10 * a + digit_val x) xs
      = (10 * a + digit_val x) * 10 ^ length xs + foldl (\<lambda>a c. 10 * a + digit_val c) 0 xs"
    by (rule Cons.IH)
  have 2: "foldl (\<lambda>a c. 10 * a + digit_val c) (digit_val x) xs
      = digit_val x * 10 ^ length xs + foldl (\<lambda>a c. 10 * a + digit_val c) 0 xs"
    by (rule Cons.IH)
  show ?case
    by (simp add: 1 2 ring_distribs)
qed

lemma digits_to_int_append:
  "digits_to_int (xs @ ys) = digits_to_int xs * 10 ^ length ys + digits_to_int ys"
proof -
  have "digits_to_int (xs @ ys) = foldl (\<lambda>a c. 10 * a + digit_val c) (digits_to_int xs) ys"
    by (simp add: digits_to_int_def)
  then show ?thesis
    by (simp add: digits_to_int_acc)
qed

lemma digits_to_int_zeros: "digits_to_int (replicate j CHR ''0'') = 0"
  by (induction j) (simp_all add: digits_to_int_def digit_val_def)

lemma dec_digits_value: "0 \<le> n \<Longrightarrow> digits_to_int (dec_digits n) = n"
proof (induction n rule: dec_digits.induct)
  case (1 n)
  show ?case
  proof (cases "n < 10")
    case True
    with 1 show ?thesis
      by (subst dec_digits.simps) (simp add: digits_to_int_def digit_char_digit)
  next
    case False
    with 1 have "digits_to_int (dec_digits (n div 10)) = n div 10" by simp
    moreover have "digit_val (digit_char (n mod 10)) = n mod 10"
      by (rule digit_char_digit) simp_all
    ultimately show ?thesis
      using False
      by (subst dec_digits.simps) (simp add: digits_to_int_append, simp add: digits_to_int_def)
  qed
qed

lemma replace_first_suffix:
  assumes "c \<notin> set xs"
  shows "replace_first (c # p) [] (xs @ c # p) = xs"
  using assms by (induction xs) auto

lemma trim_id:
  assumes "xs \<noteq> []" "\<not> is_space (hd xs)" "\<not> is_space (last xs)"
  shows "trim xs = xs"
proof -
  have "dropWhile is_space xs = xs"
    using assms(1,2) by (cases xs) simp_all
  moreover have "dropWhile is_space (rev xs) = rev xs"
    using assms(1,3) by (cases "rev xs") (simp_all add: last_rev [symmetric] hd_rev)
  ultimately show ?thesis
    by (simp add: trim_def)
qed

lemma is_digit_chars:
  assumes "is_digit c"
  shows "\<not> is_space c" and "c \<noteq> CHR ''.''" and "c \<noteq> CHR ''-''" and "c \<noteq> CHR '' ''"
  using assms by (auto simp: is_digit_def is_space_def)


lemma toFixed6_shape:
  assumes "0 \<le> n" "\<lfloor>x * 10 ^ 6 + 1 / 2\<rfloor> = n"
  shows "\<exists>A B. toFixed6 x = A @ ''.'' @ B \<and> A \<noteq> [] \<and> length B = 6
    \<and> list_all is_digit A \<and> list_all is_digit B \<and> digits_to_int (A @ B) = n"
proof -
  define m where "m = dec_digits n"
  define m' where "m' = replicate (7 - length m) CHR ''0'' @ m"
  define A where "A = take (length m' - 6) m'"
  define B where "B = drop (length m' - 6) m'"
  have len: "7 \<le> length m'"
    by (simp add: m'_def)
  have zero: "is_digit CHR ''0''"
    by (simp add: is_digit_def)
  have dig: "list_all is_digit m'"
    using dec_digits_digits [OF assms(1)] zero by (auto simp: m'_def m_def list_all_iff)
  have val: "digits_to_int m' = n"
    using dec_digits_value [OF assms(1)]
    by (simp add: m'_def m_def digits_to_int_append digits_to_int_zeros)
  have ab: "A @ B = m'"
    by (simp add: A_def B_def)
  have "toFixed6 x = A @ ''.'' @ B"
    using assms(2) by (simp add: toFixed6_def Let_def A_def B_def m'_def m_def)
  moreover have "A \<noteq> []"
    using len by (auto simp: A_def)
  moreover have "length B = 6"
    using len by (simp add: B_def)
  moreover have "list_all is_digit A" "list_all is_digit B"
    using dig ab [symmetric] by simp_all
  moreover have "digits_to_int (A @ B) = n"
    using val ab by simp
  ultimately show ?thesis by blast
qed

lemma parseEther_bound:
  assumes "L = 2 ^ 511"
  shows "parseEther v =
     (let negative = (v \<noteq> [] \<and> hd v = CHR ''-'');
          r0 = (if negative then tl v else v);
          whole = takeWhile is_digit r0;
          r1 = dropWhile is_digit r0;
          r2 = (if r1 \<noteq> [] \<and> hd r1 = CHR ''.'' then tl r1 else r1);
          decimal = takeWhile is_digit r2;
          r3 = dropWhile is_digit r2
      in if (whole = [] \<and> decimal = []) \<or> r3 \<noteq> []
         then Inl ''invalid FixedNumber string value''
         else if \<not> list_all (\<lambda>c. c = CHR ''0'') (drop 18 decimal)
         then Inl ''too many decimals for format''
         else (let padded = take 18 (decimal @ replicate 18 CHR ''0'');
                   n = digits_to_int (whole @ padded);
                   val = (if negative then - n else n)
               in if - L \<le> val \<and> val < L then Inr val
                  else Inl ''overflow''))"
  unfolding assms by (rule parseEther_def)

lemma parseEther_fixed6:
  assumes "A \<noteq> []" "length B = 6" "list_all is_digit A" "list_all is_digit B"
    and "v = digits_to_int (A @ B) * 10 ^ 12" "0 \<le> v" "v < 2 ^ 511"
  shows "parseEther (A @ ''.'' @ B) = Inr v"
proof -
  define L :: int where "L = 2 ^ 511"
  have a: "\<forall>c \<in> set A. is_digit c" and b: "\<forall>c \<in> set B. is_digit c"
    using assms(3,4) by (simp_all add: list_all_iff)
  have dot: "\<not> is_digit CHR ''.''"
    by (simp add: is_digit_def)
  have "is_digit (hd A)"
    using assms(1) a by simp
  then have "hd A \<noteq> CHR ''-''"
    by (rule is_digit_chars)
  then have neg: "hd (A @ CHR ''.'' # B) \<noteq> CHR ''-''"
    using assms(1) by simp
  have whole: "takeWhile is_digit (A @ CHR ''.'' # B) = A"
    using a dot by simp
  have r1: "dropWhile is_digit (A @ CHR ''.'' # B) = CHR ''.'' # B"
    using a dot by simp
  have dec: "takeWhile is_digit B = B" and r3: "dropWhile is_digit B = []"
    using b by simp_all
  have pad: "take 18 (B @ replicate 18 CHR ''0'') = B @ replicate 12 CHR ''0''"
    using assms(2) by simp
  have val: "digits_to_int (A @ B @ replicate 12 CHR ''0'') = v"
    using digits_to_int_append [of "A @ B" "replicate 12 CHR ''0''"]
    by (simp add: digits_to_int_zeros assms(5))
  have "0 \<le> L"
    by (simp add: L_def)
  then have lo: "- L \<le> v"
    using assms(6) by simp
  have hi: "v < L"
    using assms(7) by (simp only: L_def)
  show ?thesis
    using neg assms(1,2) lo hi b dot
    by (simp add: parseEther_bound [OF L_def] Let_def whole r1 dec r3 pad val)
qed

lemma parseETH_fixed6:
  assumes "A \<noteq> []" "length B = 6" "list_all is_digit A" "list_all is_digit B"
    and "v = digits_to_int (A @ B) * 10 ^ 12" "0 \<le> v" "v < 2 ^ 511"
  shows "parseETH ((A @ ''.'' @ B) @ '' ETH'') = Inr v"
proof -
  have a: "\<forall>c \<in> set A. is_digit c" and b: "\<forall>c \<in> set B. is_digit c"
    using assms(3,4) by (simp_all add: list_all_iff)
  have "CHR '' '' \<notin> set (A @ ''.'' @ B)"
    using a b is_digit_chars(4) by auto
  then have 1: "replace_first '' ETH'' [] ((A @ ''.'' @ B) @ '' ETH'') = A @ ''.'' @ B"
    by (rule replace_first_suffix)
  have 2: "trim (A @ ''.'' @ B) = A @ ''.'' @ B"
  proof (rule trim_id)
    show "A @ ''.'' @ B \<noteq> []" by simp
    show "\<not> is_space (hd (A @ ''.'' @ B))"
      using assms(1) a is_digit_chars(1) by simp
    have "B \<noteq> []" using assms(2) by auto
    then show "\<not> is_space (last (A @ ''.'' @ B))"
      using b is_digit_chars(1) by simp
  qed
  have 3: "parseEther (A @ ''.'' @ B) = Inr v"
    using assms by (rule parseEther_fixed6)
  show ?thesis
    by (simp only: parseETH_def 1 2 3)
qed


lemma to_double_six_decimals:
  assumes "0 \<le> k" "k < 2 ^ 33 * 10 ^ 6"
  shows "\<lfloor>to_double (k * 10 ^ 12) (10 ^ 18) * 10 ^ 6 + 1 / 2\<rfloor> = k"
    and "to_double (k * 10 ^ 12) (10 ^ 18) < 10 ^ 21"
proof -
  define d where "d = to_double (k * 10 ^ 12) (10 ^ 18)"
  define e where "e = max (ilog2 (k * 10 ^ 12) (10 ^ 18)) (- 1022)"
  have "ilog2 (k * 10 ^ 12) (10 ^ 18) \<le> 32"
    using assms by (intro ilog2_le) simp_all
  then have "e - 52 \<le> - 20"
    by (simp add: e_def)
  then have "pow2 (e - 52) \<le> pow2 (- 20)"
    by (rule pow2_mono)
  then have ulp: "pow2 (e - 52) / 2 \<le> 1 / 2 ^ 21"
    by (simp add: pow2_def)
  have q: "(of_int (k * 10 ^ 12) / of_int (10 ^ 18) :: rat) = of_int k / 10 ^ 6"
    by simp
  have "\<bar>d - of_int (k * 10 ^ 12) / of_int (10 ^ 18)\<bar> \<le> pow2 (e - 52) / 2"
    unfolding d_def e_def by (rule to_double_error) simp
  then have "\<bar>d - of_int k / 10 ^ 6\<bar> \<le> pow2 (e - 52) / 2"
    by (simp only: q)
  with ulp have err: "\<bar>d - of_int k / 10 ^ 6\<bar> \<le> 1 / 2 ^ 21"
    by (rule order_trans [rotated])
  then have lo: "of_int k / 10 ^ 6 - 1 / 2 ^ 21 \<le> d" and hi: "d \<le> of_int k / 10 ^ 6 + 1 / 2 ^ 21"
    by linarith+
  have "of_int k \<le> d * 10 ^ 6 + 1 / 2" "d * 10 ^ 6 + 1 / 2 < of_int k + 1"
    using lo hi by (simp_all add: field_simps)
  then show "\<lfloor>to_double (k * 10 ^ 12) (10 ^ 18) * 10 ^ 6 + 1 / 2\<rfloor> = k"
    unfolding d_def by linarith
  have "(of_int k :: rat) < of_int (2 ^ 33 * 10 ^ 6)"
    using assms(2) by (simp only: of_int_less_iff)
  then have "(of_int k :: rat) < 2 ^ 33 * 10 ^ 6"
    by simp
  then have "(of_int k :: rat) / 10 ^ 6 < 2 ^ 33"
    by (simp add: field_simps)
  with hi show "to_double (k * 10 ^ 12) (10 ^ 18) < 10 ^ 21"
    unfolding d_def by simp
qed

lemma pow2_powi: "pow2 i = 2 powi i"
  by (simp add: pow2_def power_int_def inverse_eq_divide power_one_over)

lemma pow2_diff:
  assumes "0 \<le> j" "0 \<le> k"
  shows "pow2 (j - k) = 2 ^ nat j / 2 ^ nat k"
proof -
  have "pow2 (j - k) = 2 powi j / 2 powi k"
    by (simp add: pow2_powi power_int_diff)
  moreover have "(2::rat) powi j = 2 ^ nat j" "(2::rat) powi k = 2 ^ nat k"
    using assms by (simp_all add: power_int_def)
  ultimately show ?thesis by simp
qed

lemma ilog2_lower:
  assumes "0 < a" "0 < b"
  shows "pow2 (ilog2 a b) \<le> of_int a / of_int b"
proof -
  define la where "la = bitlen a"
  define lb where "lb = bitlen b"
  have la: "2 ^ nat (la - 1) \<le> a" and lb: "b < 2 ^ nat lb"
    using bitlen_bounds [OF assms(1)] bitlen_bounds [OF assms(2)] by (simp_all add: la_def lb_def)
  have la1: "1 \<le> la" and lb1: "1 \<le> lb"
    using assms bitlen_eq_zero_iff [of a] bitlen_eq_zero_iff [of b] bitlen_nonneg [of a]
      bitlen_nonneg [of b]
    by (simp_all add: la_def lb_def)
  have b: "(0::rat) < of_int b"
    using assms(2) by simp
  show ?thesis
  proof (cases "b * 2 ^ nat (la - lb) \<le> a * 2 ^ nat (- (la - lb))")
    case True
    then have "(of_int (b * 2 ^ nat (la - lb)) :: rat) \<le> of_int (a * 2 ^ nat (- (la - lb)))"
      by (simp only: of_int_le_iff)
    then have c: "(of_int b :: rat) * 2 ^ nat (la - lb) \<le> of_int a * 2 ^ nat (- (la - lb))"
      by simp
    have "pow2 (la - lb) \<le> of_int a / of_int b"
    proof (cases "0 \<le> la - lb")
      case True
      with c have "(of_int b :: rat) * 2 ^ nat (la - lb) \<le> of_int a"
        by simp
      with b True show ?thesis
        by (simp add: pow2_def pos_le_divide_eq mult.commute)
    next
      case False
      with c have "(of_int b :: rat) \<le> of_int a * 2 ^ nat (- (la - lb))"
        by simp
      with b False show ?thesis
        by (simp add: pow2_def field_simps)
    qed
    with True show ?thesis
      by (simp add: ilog2_def Let_def la_def lb_def)
  next
    case False
    have "(of_int (2 ^ nat (la - 1)) :: rat) \<le> of_int a" and "(of_int b :: rat) \<le> of_int (2 ^ nat lb)"
      using la lb by (simp_all only: of_int_le_iff less_imp_le)
    then have n: "(2 ^ nat (la - 1) :: rat) \<le> of_int a" and d: "(of_int b :: rat) \<le> 2 ^ nat lb"
      by simp_all
    have "pow2 ((la - 1) - lb) = 2 ^ nat (la - 1) / 2 ^ nat lb"
      using la1 lb1 by (intro pow2_diff) simp_all
    also have "\<dots> \<le> of_int a / 2 ^ nat lb"
      using n by (simp add: divide_right_mono)
    also have "\<dots> \<le> of_int a / of_int b"
      using d b assms(1) by (intro divide_left_mono) simp_all
    finally have "pow2 (la - lb - 1) \<le> of_int a / of_int b"
      by (simp add: algebra_simps)
    with False show ?thesis
      by (simp add: ilog2_def Let_def la_def lb_def)
  qed
qed

lemma to_double_large:
  assumes "2 * 10 ^ 21 * b \<le> a" "0 < b"
  shows "10 ^ 21 \<le> to_double a b"
proof -
  define q :: rat where "q = of_int a / of_int b"
  define u where "u = pow2 (max (ilog2 a b) (- 1022) - 52)"
  have b: "(0::rat) < of_int b"
    using assms(2) by simp
  have "0 < 2 * 10 ^ 21 * b"
    using assms(2) by simp
  with assms(1) have a: "0 < a"
    by linarith
  have "(of_int (2 * 10 ^ 21 * b) :: rat) \<le> of_int a"
    using assms(1) by (simp only: of_int_le_iff)
  then have q: "2 * 10 ^ 21 \<le> q"
    using b by (simp add: q_def pos_le_divide_eq)
  have "pow2 (ilog2 a b - 52) \<le> pow2 (ilog2 a b)"
    by (rule pow2_mono) simp
  also have "\<dots> \<le> q"
    unfolding q_def using a assms(2) by (rule ilog2_lower)
  finally have 1: "pow2 (ilog2 a b - 52) \<le> q" .
  have "pow2 (- 1022 - 52) \<le> pow2 0"
    by (rule pow2_mono) simp
  then have 2: "pow2 (- 1022 - 52) \<le> q"
    using q by (simp add: pow2_def)
  have u: "u \<le> q"
    using 1 2 by (simp add: u_def max_def)
  have "\<bar>to_double a b - q\<bar> \<le> u / 2"
    unfolding q_def u_def using assms(2) by (rule to_double_error)
  then have "q - u / 2 \<le> to_double a b"
    by linarith
  with u q show ?thesis
    by linarith
qed

lemma formatETH_large:
  assumes "2 * 10 ^ 39 \<le> \<bar>wei\<bar>" "- (2 ^ 511) \<le> wei" "wei < 2 ^ 511"
  shows "formatETH wei = Inr None"
proof -
  have "10 ^ 21 \<le> to_double \<bar>wei\<bar> (10 ^ 18)"
    using assms(1) by (intro to_double_large) simp_all
  with assms(2,3) show ?thesis
    by (simp add: formatETH_def Let_def)
qed

text \<open>
  \<open>formatETH\<close> with the case of an amount of \<open>2 * 10^21\<close> ether or more decided without
  the double, as a code equation for the evaluation of examples.
\<close>

lemma formatETH_code [code]:
  "formatETH wei =
     (if wei < - (2 ^ 511) \<or> 2 ^ 511 \<le> wei then Inl ''overflow''
      else if 2 * 10 ^ 39 \<le> \<bar>wei\<bar> then Inr None
      else (let x = to_double \<bar>wei\<bar> (10 ^ 18)
            in Inr (if 10 ^ 21 \<le> x then None
                    else Some ((if wei < 0 then ''-'' else []) @ toFixed6 x @ '' ETH''))))"
proof (cases "2 * 10 ^ 39 \<le> \<bar>wei\<bar> \<and> - (2 ^ 511) \<le> wei \<and> wei < 2 ^ 511")
  case True
  then show ?thesis
    by (simp add: formatETH_large)
next
  case False
  then show ?thesis
    by (auto simp: formatETH_def)
qed

text \<open>
  C5, as amended. For every amount of wei that is not negative, is a multiple of
  \<open>10^12\<close> (\<^verbatim>\<open>formatETH\<close> prints six decimals of ether) and is less than \<open>2^33\<close> ether,
  \<^verbatim>\<open>formatETH\<close> gives a string that \<^verbatim>\<open>parseETH\<close> reads back as the same amount.
\<close>

theorem format_parse_round_trip:
  assumes "0 \<le> wei" "wei < 2 ^ 33 * 10 ^ 18" "wei mod 10 ^ 12 = 0"
  shows "\<exists>str. formatETH wei = Inr (Some str) \<and> parseETH str = Inr wei"
proof -
  define k where "k = wei div 10 ^ 12"
  have wei: "wei = k * 10 ^ 12"
    using assms(3) div_mult_mod_eq [of wei "10 ^ 12"] by (simp add: k_def)
  have k: "0 \<le> k" "k < 2 ^ 33 * 10 ^ 6"
    using assms(1,2) unfolding wei by simp_all
  note d = to_double_six_decimals [OF k]
  obtain A B where ab: "toFixed6 (to_double (k * 10 ^ 12) (10 ^ 18)) = A @ ''.'' @ B"
      "A \<noteq> []" "length B = 6" "list_all is_digit A" "list_all is_digit B"
      "digits_to_int (A @ B) = k"
    using toFixed6_shape [OF k(1) d(1)] by blast
  have "wei < 2 ^ 511"
    using assms(2) by simp
  then have f: "formatETH wei = Inr (Some ((A @ ''.'' @ B) @ '' ETH''))"
    using assms(1) d(2) ab(1) by (simp add: formatETH_def Let_def wei)
  have "wei < 2 ^ 511"
    using assms(2) by simp
  then have "parseETH ((A @ ''.'' @ B) @ '' ETH'') = Inr wei"
    using ab(2-5) assms(1) by (intro parseETH_fixed6) (simp_all add: ab(6) wei)
  with f show ?thesis by blast
qed

theorem format_parse_round_trip_witness:
  "(0::int) \<le> 9500000000000000 \<and> (9500000000000000::int) < 2 ^ 33 * 10 ^ 18
   \<and> (9500000000000000::int) mod 10 ^ 12 = 0
   \<and> formatETH 9500000000000000 = Inr (Some ''0.009500 ETH'')
   \<and> parseETH ''0.009500 ETH'' = Inr 9500000000000000"
proof -
  have h: "(0::int) \<le> 9500000000000000" "(9500000000000000::int) < 2 ^ 33 * 10 ^ 18"
    "(9500000000000000::int) mod 10 ^ 12 = 0"
    by simp_all
  have f: "formatETH 9500000000000000 = Inr (Some ''0.009500 ETH'')"
    by code_simp
  from format_parse_round_trip [OF h] f
  have "parseETH ''0.009500 ETH'' = Inr 9500000000000000"
    by simp
  with h f show ?thesis by blast
qed

theorem format_parse_counterexample:
  "formatETH 1 = Inr (Some ''0.000000 ETH'') \<and> parseETH ''0.000000 ETH'' = Inr 0 \<and> (0::int) \<noteq> 1"
  by code_simp

subsection \<open>Effects of the handlers on the two maps\<close>

lemma fetchWhitelist_maps:
  "fetchWhitelist e s = (w, s') \<Longrightarrow> grants s' = grants s \<and> grantors s' = grantors s"
  by (auto simp: fetchWhitelist_def Let_def split: option.splits if_splits)

lemma requireWhitelist_maps:
  "requireWhitelist e r s = (x, s') \<Longrightarrow> grants s' = grants s \<and> grantors s' = grantors s"
  by (auto simp: requireWhitelist_def Let_def split: option.splits if_splits prod.splits
           dest: fetchWhitelist_maps)

lemma post_grants_complete_error:
  "post_grants_complete e r rc h s = (Inl err, s') \<Longrightarrow> s' = s"
  by (auto simp: post_grants_complete_def Let_def split: sum.splits prod.splits)

lemma post_grants_handler_error:
  "post_grants_handler e r s = (Inl err, s') \<Longrightarrow> s' = s"
  by (auto simp: post_grants_handler_def split: sum.splits prod.splits
           dest: post_grants_complete_error)

lemma example_post_grants:
  "post_grants example_env example_request init_state = (Inr example_grant, example_state)"
  by code_simp

text \<open>
  C4. A POST /grants request that is answered with an error, whichever step it fails at
  (whitelist, missing field, invalid recipient, duplicate funding transaction,
  transaction not found or not confirmed, wrong destination, wallet not configured, an
  exception of the provider or of the transfer), leaves the grant ledger and the grantor
  stats as they were: no record is inserted, no stats are created or updated.
\<close>

theorem post_grants_error_keeps_ledger:
  assumes "post_grants e r s = (Inl err, s')"
  shows "grants s' = grants s \<and> grantors s' = grantors s"
proof (cases "requireWhitelist e r s")
  case (Pair x s1)
  have maps: "grants s1 = grants s \<and> grantors s1 = grantors s"
    using Pair by (rule requireWhitelist_maps)
  show ?thesis
  proof (cases x)
    case None
    with Pair assms have "post_grants_handler e r s1 = (Inl err, s')"
      by (simp add: post_grants_def)
    then have "s' = s1" by (rule post_grants_handler_error)
    with maps show ?thesis by simp
  next
    case (Some err')
    with Pair assms have "s' = s1" by (simp add: post_grants_def)
    with maps show ?thesis by simp
  qed
qed

theorem post_grants_error_keeps_ledger_witness:
  "post_grants (example_env\<lparr>getWallet := NoKey\<rparr>) example_request init_state
     = (Inl WalletNotConfigured,
        init_state\<lparr>whitelistCache := Some {''0xbbbbbbbbbbbbbbbbbbbbbbbbbbbbbbbbbbbbbbbb''},
                   whitelistCacheTime := 1000\<rparr>)
   \<and> grants (init_state\<lparr>whitelistCache := Some {''0xbbbbbbbbbbbbbbbbbbbbbbbbbbbbbbbbbbbbbbbb''},
                         whitelistCacheTime := 1000\<rparr>) = grants init_state
   \<and> grantors (init_state\<lparr>whitelistCache := Some {''0xbbbbbbbbbbbbbbbbbbbbbbbbbbbbbbbbbbbbbbbb''},
                           whitelistCacheTime := 1000\<rparr>) = grantors init_state"
proof -
  have h: "post_grants (example_env\<lparr>getWallet := NoKey\<rparr>) example_request init_state
     = (Inl WalletNotConfigured,
        init_state\<lparr>whitelistCache := Some {''0xbbbbbbbbbbbbbbbbbbbbbbbbbbbbbbbbbbbbbbbb''},
                   whitelistCacheTime := 1000\<rparr>)"
    by code_simp
  from post_grants_error_keeps_ledger [OF h] h show ?thesis by simp
qed

subsection \<open>The fee split\<close>

lemma fee_of_nonneg:
  "0 \<le> a \<Longrightarrow> bigint_div (a * FEE_PERCENT) 100 = a * 5 div 100"
  by (simp add: bigint_div_def FEE_PERCENT_def sgn_if)

lemma fee_bounds:
  fixes a :: int
  assumes "0 \<le> a"
  shows "0 \<le> a * 5 div 100" and "a * 5 div 100 \<le> a"
  using assms by simp_all

lemma post_grants_complete_grant:
  assumes "post_grants_complete e r rc h s = (Inr g, s')"
  shows "fee g = bigint_div (grossAmount g * FEE_PERCENT) 100"
    and "netAmount g = grossAmount g - fee g"
    and "fundingTxHash g = h"
    and "grant_id g = uuid_id e"
    and "recipient g = toLowerCase rc"
    and "s' = record_grant g (grossAmount g) s"
  using assms
  by (auto simp: post_grants_complete_def Let_def split: sum.splits prod.splits)

lemma post_grants_handler_grant:
  assumes "post_grants_handler e r s = (Inr g, s')"
  shows "fee g = bigint_div (grossAmount g * FEE_PERCENT) 100"
    and "netAmount g = grossAmount g - fee g"
    and "grant_id g = uuid_id e"
    and "s' = record_grant g (grossAmount g) s"
  using assms
  by (auto simp: post_grants_handler_def split: sum.splits prod.splits
           dest: post_grants_complete_grant)

lemma post_grants_grant:
  assumes "post_grants e r s = (Inr g, s')"
  shows "fee g = bigint_div (grossAmount g * FEE_PERCENT) 100"
    and "netAmount g = grossAmount g - fee g"
    and "grant_id g = uuid_id e"
    and "map_of (grants s') (grant_id g) = Some g"
proof -
  obtain x s1 where gate: "requireWhitelist e r s = (x, s1)"
    by (cases "requireWhitelist e r s")
  with assms have h: "post_grants_handler e r s1 = (Inr g, s')"
    by (cases x) (simp_all add: post_grants_def)
  show "fee g = bigint_div (grossAmount g * FEE_PERCENT) 100"
    and "netAmount g = grossAmount g - fee g" and "grant_id g = uuid_id e"
    using h by (simp_all add: post_grants_handler_grant)
  have "s' = record_grant g (grossAmount g) s1"
    using h by (rule post_grants_handler_grant)
  then show "map_of (grants s') (grant_id g) = Some g"
    by (simp add: record_grant_def update_conv')
qed

lemma post_e2e_grant:
  assumes "post_e2e e r s = (Inr g, s')"
  shows "fee g = bigint_div (grossAmount g * FEE_PERCENT) 100"
    and "netAmount g = grossAmount g - fee g"
    and "grant_id g = uuid_id e"
    and "s' = s\<lparr>grants := AList.update (grant_id g) g (grants s)\<rparr>"
  using assms
  by (auto simp: post_e2e_def Let_def split: option.splits sum.splits prod.splits if_splits)

lemma verify_transaction_value:
  "verify_transaction e h = Inr (a, f)
   \<Longrightarrow> \<exists>tx. getTransaction e h = Inr (Some tx) \<and> tx_value tx = a"
  by (auto simp: verify_transaction_def split: sum.splits option.splits if_splits)

lemma funding_mock:
  assumes "funding e r h = Inr (a, f)" and "req_mock r"
  shows "truthy (req_amount r) \<Longrightarrow> \<exists>amount. req_amount r = Some amount \<and> parseETH amount = Inr a"
    and "\<not> truthy (req_amount r) \<Longrightarrow> parseEther ''0.01'' = Inr a"
  using assms
  by (auto simp: funding_def truthy_def split: sum.splits option.splits if_splits)

lemma post_grants_complete_funding:
  "post_grants_complete e r rc h s = (Inr g, s') \<Longrightarrow> \<exists>f. funding e r h = Inr (grossAmount g, f)"
  by (auto simp: post_grants_complete_def Let_def split: sum.splits prod.splits)

lemma post_grants_funding:
  assumes "post_grants e r s = (Inr g, s')"
  shows "\<exists>h f. req_txHash r = Some h \<and> funding e r h = Inr (grossAmount g, f)"
proof -
  obtain x s1 where gate: "requireWhitelist e r s = (x, s1)"
    by (cases "requireWhitelist e r s")
  with assms have h: "post_grants_handler e r s1 = (Inr g, s')"
    by (cases x) (simp_all add: post_grants_def)
  then obtain rc h where c: "post_grants_check e r s1 = Inr (rc, h)"
    and k: "post_grants_complete e r rc h s1 = (Inr g, s')"
    by (auto simp: post_grants_handler_def split: sum.splits prod.splits)
  from c have "req_txHash r = Some h"
    by (auto simp: post_grants_check_def split: option.splits if_splits)
  with post_grants_complete_funding [OF k] show ?thesis by blast
qed

lemma post_e2e_funding:
  assumes "post_e2e e r s = (Inr g, s')"
  shows "\<exists>h f. req_txHash r = Some h \<and> verify_transaction e h = Inr (grossAmount g, f)"
  using assms
  by (auto simp: post_e2e_def Let_def split: option.splits sum.splits prod.splits if_splits)

lemma parseEther_default: "parseEther ''0.01'' = Inr 10000000000000000"
  by code_simp

lemma example_post_e2e:
  "post_e2e example_env example_request init_state = (Inr e2e_grant, e2e_state)"
  by code_simp

lemma second_post_grants:
  "post_grants second_env second_request example_state = (Inr second_grant, second_state)"
  by code_simp

lemma third_post_grants:
  "post_grants third_env third_request second_state = (Inr third_grant, third_state)"
  by code_simp

text \<open>
  C3. For a grant that POST /grants or POST /test/e2e answers with, of a gross amount
  that is not negative. The gross amount of the grant is the funding amount of the
  request: the value of the transaction that the request names, for POST /test/e2e and
  for a live POST /grants; in mock mode the amount that \<^verbatim>\<open>parseETH\<close> reads in the
  \<^verbatim>\<open>amount\<close> of the request, or 0.01 ether when the request has none. The fee is
  \<open>floor (grossAmount * 5 / 100)\<close> in exact integer arithmetic, the net amount is the
  gross amount less the fee, so the two add up to the gross amount and the fee is
  between 0 and the gross amount; and the record stored under the id of the grant is
  this grant, with these values.
\<close>

theorem fee_split:
  assumes "post_grants e r s = (Inr g, s') \<or> post_e2e e r s = (Inr g, s')"
    and "0 \<le> grossAmount g"
  shows "(post_e2e e r s = (Inr g, s') \<or> \<not> req_mock r
            \<longrightarrow> (\<exists>h tx. req_txHash r = Some h \<and> getTransaction e h = Inr (Some tx)
                  \<and> tx_value tx = grossAmount g))
    \<and> (post_grants e r s = (Inr g, s') \<and> req_mock r \<and> truthy (req_amount r)
            \<longrightarrow> (\<exists>amount. req_amount r = Some amount \<and> parseETH amount = Inr (grossAmount g)))
    \<and> (post_grants e r s = (Inr g, s') \<and> req_mock r \<and> \<not> truthy (req_amount r)
            \<longrightarrow> grossAmount g = 10000000000000000)
    \<and> fee g = \<lfloor>(of_int (grossAmount g) * 5 / 100 :: rat)\<rfloor>
    \<and> fee g = grossAmount g * 5 div 100
    \<and> netAmount g = grossAmount g - fee g
    \<and> fee g + netAmount g = grossAmount g
    \<and> 0 \<le> fee g \<and> fee g \<le> grossAmount g
    \<and> map_of (grants s') (grant_id g) = Some g"
proof -
  have live: "\<exists>h tx. req_txHash r = Some h \<and> getTransaction e h = Inr (Some tx)
      \<and> tx_value tx = grossAmount g"
    if "post_e2e e r s = (Inr g, s') \<or> \<not> req_mock r"
  proof (cases "post_e2e e r s = (Inr g, s')")
    case True
    from post_e2e_funding [OF True] obtain h f where h: "req_txHash r = Some h"
      and v: "verify_transaction e h = Inr (grossAmount g, f)" by blast
    from verify_transaction_value [OF v] h show ?thesis by blast
  next
    case False
    with that assms(1) have p: "post_grants e r s = (Inr g, s')" and m: "\<not> req_mock r"
      by blast+
    from post_grants_funding [OF p] obtain h f where h: "req_txHash r = Some h"
      and v: "funding e r h = Inr (grossAmount g, f)" by blast
    from v m have "verify_transaction e h = Inr (grossAmount g, f)"
      by (simp add: funding_def)
    from verify_transaction_value [OF this] h show ?thesis by blast
  qed
  have mock_amount: "\<exists>amount. req_amount r = Some amount \<and> parseETH amount = Inr (grossAmount g)"
    if "post_grants e r s = (Inr g, s') \<and> req_mock r \<and> truthy (req_amount r)"
  proof -
    from that post_grants_funding obtain h f where
      v: "funding e r h = Inr (grossAmount g, f)" by blast
    from funding_mock(1) [OF v] that show ?thesis by blast
  qed
  have mock_default: "grossAmount g = 10000000000000000"
    if "post_grants e r s = (Inr g, s') \<and> req_mock r \<and> \<not> truthy (req_amount r)"
  proof -
    from that post_grants_funding obtain h f where
      v: "funding e r h = Inr (grossAmount g, f)" by blast
    from funding_mock(2) [OF v] that have "parseEther ''0.01'' = Inr (grossAmount g)"
      by blast
    then show ?thesis by (simp add: parseEther_default)
  qed
  have split: "fee g = bigint_div (grossAmount g * FEE_PERCENT) 100
      \<and> netAmount g = grossAmount g - fee g \<and> map_of (grants s') (grant_id g) = Some g"
    using assms(1)
  proof
    assume h: "post_grants e r s = (Inr g, s')"
    show ?thesis
      using post_grants_grant(1) [OF h] post_grants_grant(2) [OF h] post_grants_grant(4) [OF h]
      by blast
  next
    assume h: "post_e2e e r s = (Inr g, s')"
    have "map_of (grants s') (grant_id g) = Some g"
      by (subst post_e2e_grant(4) [OF h]) (simp add: update_conv')
    then show ?thesis
      using post_e2e_grant(1) [OF h] post_e2e_grant(2) [OF h] by blast
  qed
  then have f: "fee g = grossAmount g * 5 div 100"
    using assms(2) by (simp add: fee_of_nonneg)
  have "(of_int (grossAmount g) * 5 / 100 :: rat) = of_int (grossAmount g * 5) / of_int 100"
    by simp
  then have fl: "\<lfloor>(of_int (grossAmount g) * 5 / 100 :: rat)\<rfloor> = grossAmount g * 5 div 100"
    by (simp only: floor_divide_of_int_eq)
  have arith: "fee g = \<lfloor>(of_int (grossAmount g) * 5 / 100 :: rat)\<rfloor>
    \<and> fee g = grossAmount g * 5 div 100
    \<and> netAmount g = grossAmount g - fee g
    \<and> fee g + netAmount g = grossAmount g
    \<and> 0 \<le> fee g \<and> fee g \<le> grossAmount g
    \<and> map_of (grants s') (grant_id g) = Some g"
    using split f fl fee_bounds [OF assms(2)] by simp
  from live mock_amount mock_default arith show ?thesis
    by (intro conjI impI) blast+
qed

text \<open>
  The three ways to a grant, on the examples: POST /test/e2e and a live POST /grants
  for a transaction of 0.01 ether, a mock POST /grants whose amount is \<^verbatim>\<open>2.5 ETH\<close>,
  and a mock POST /grants with no amount.
\<close>

theorem fee_split_witness:
  "post_e2e example_env example_request init_state = (Inr e2e_grant, e2e_state)
   \<and> post_grants example_env example_request init_state = (Inr example_grant, example_state)
   \<and> post_grants second_env second_request example_state = (Inr second_grant, second_state)
   \<and> post_grants third_env third_request second_state = (Inr third_grant, third_state)
   \<and> \<not> req_mock example_request \<and> req_mock second_request \<and> req_mock third_request
   \<and> truthy (req_amount second_request) \<and> \<not> truthy (req_amount third_request)
   \<and> 0 \<le> grossAmount e2e_grant \<and> 0 \<le> grossAmount example_grant
   \<and> 0 \<le> grossAmount second_grant \<and> 0 \<le> grossAmount third_grant
   \<and> (\<exists>tx. getTransaction example_env example_tx_hash = Inr (Some tx)
         \<and> tx_value tx = 10000000000000000)
   \<and> grossAmount e2e_grant = 10000000000000000
   \<and> fee e2e_grant = 500000000000000
   \<and> netAmount e2e_grant = 9500000000000000
   \<and> map_of (grants e2e_state) (grant_id e2e_grant) = Some e2e_grant
   \<and> grossAmount example_grant = 10000000000000000
   \<and> fee example_grant = 500000000000000
   \<and> netAmount example_grant = 9500000000000000
   \<and> map_of (grants example_state) (grant_id example_grant) = Some example_grant
   \<and> parseETH ''2.5 ETH'' = Inr (grossAmount second_grant)
   \<and> grossAmount second_grant = 2500000000000000000
   \<and> fee second_grant = 125000000000000000
   \<and> netAmount second_grant = 2375000000000000000
   \<and> map_of (grants second_state) (grant_id second_grant) = Some second_grant
   \<and> grossAmount third_grant = 10000000000000000
   \<and> fee third_grant = 500000000000000
   \<and> netAmount third_grant = 9500000000000000
   \<and> map_of (grants third_state) (grant_id third_grant) = Some third_grant"
proof -
  have h1: "post_grants example_env example_request init_state = (Inr e2e_grant, e2e_state)
      \<or> post_e2e example_env example_request init_state = (Inr e2e_grant, e2e_state)"
    using example_post_e2e by simp
  have h2: "post_grants example_env example_request init_state
        = (Inr example_grant, example_state)
      \<or> post_e2e example_env example_request init_state = (Inr example_grant, example_state)"
    using example_post_grants by simp
  have h3: "post_grants second_env second_request example_state
        = (Inr second_grant, second_state)
      \<or> post_e2e second_env second_request example_state = (Inr second_grant, second_state)"
    using second_post_grants by simp
  have h4: "post_grants third_env third_request second_state = (Inr third_grant, third_state)
      \<or> post_e2e third_env third_request second_state = (Inr third_grant, third_state)"
    using third_post_grants by simp
  have n1: "0 \<le> grossAmount e2e_grant"
    by (simp add: e2e_grant_def example_grant_def)
  have n2: "0 \<le> grossAmount example_grant"
    by (simp add: example_grant_def)
  have n3: "0 \<le> grossAmount second_grant"
    by (simp add: second_grant_def)
  have n4: "0 \<le> grossAmount third_grant"
    by (simp add: third_grant_def second_grant_def)
  have r: "req_txHash example_request = Some example_tx_hash
      \<and> \<not> req_mock example_request \<and> req_mock second_request \<and> req_mock third_request
      \<and> truthy (req_amount second_request) \<and> req_amount second_request = Some ''2.5 ETH''
      \<and> \<not> truthy (req_amount third_request)"
    by (simp add: example_request_def second_request_def third_request_def truthy_def)
  have v: "grossAmount e2e_grant = 10000000000000000
      \<and> grossAmount example_grant = 10000000000000000
      \<and> grossAmount second_grant = 2500000000000000000
      \<and> grossAmount third_grant = 10000000000000000"
    by (simp add: e2e_grant_def example_grant_def second_grant_def third_grant_def)
  from fee_split [OF h1 n1] fee_split [OF h2 n2] fee_split [OF h3 n3] fee_split [OF h4 n4]
    example_post_e2e example_post_grants second_post_grants third_post_grants
    n1 n2 n3 n4 r v
  show ?thesis
    by simp
qed

subsection \<open>The whitelist gate\<close>

lemma no_candidate:
  assumes "\<not> truthy (req_address r)" "\<not> truthy (req_creator r)" "\<not> truthy (req_participant r)"
    "\<not> truthy (req_sender r)" "\<not> truthy (req_from r)"
  shows "\<not> truthy (whitelist_candidate r)"
  using assms by (simp add: whitelist_candidate_def js_or_def)

lemma requireWhitelist_no_candidate:
  "\<not> truthy (whitelist_candidate r) \<Longrightarrow> requireWhitelist e r s = (Some AddressRequired, s)"
  by (auto simp: requireWhitelist_def truthy_def split: option.splits)

lemma requireWhitelist_candidate:
  "whitelist_candidate r = Some addr \<Longrightarrow> addr \<noteq> [] \<Longrightarrow>
   requireWhitelist e r s =
     (if toLowerCase addr \<in> fst (fetchWhitelist e s) then None else Some InviteOnly,
      snd (fetchWhitelist e s))"
  by (auto simp: requireWhitelist_def Let_def split: prod.splits)

lemma fetchWhitelist_failed:
  "fetch_whitelist e = None \<Longrightarrow>
   fetchWhitelist e s = (case whitelistCache s of Some c \<Rightarrow> c | None \<Rightarrow> {}, s)"
  by (auto simp: fetchWhitelist_def split: option.splits)

lemma post_grants_gate_error:
  "fst (requireWhitelist e r s) = Some err \<Longrightarrow> fst (post_grants e r s) = Inl err"
  by (cases "requireWhitelist e r s") (simp add: post_grants_def)

text \<open>
  C8. The whitelist gate. When the fetch of the whitelist fails and a cache exists, the
  gate answers from that cache; when it fails and there is no cache, the allowed set is
  empty and the request is denied. A request none of whose candidate fields (address,
  creator, participant, sender, from) holds a value is answered 400 Address required, and
  one whose address is not in the allowed set is answered 403.
\<close>

theorem whitelist_gate:
  "(fetch_whitelist e = None \<and> whitelistCache s = Some c
      \<and> whitelist_candidate r = Some addr \<and> addr \<noteq> []
    \<longrightarrow> fetchWhitelist e s = (c, s)
        \<and> requireWhitelist e r s = (if toLowerCase addr \<in> c then None else Some InviteOnly, s))
  \<and> (fetch_whitelist e = None \<and> whitelistCache s = None
      \<and> whitelist_candidate r = Some addr \<and> addr \<noteq> []
    \<longrightarrow> fetchWhitelist e s = ({}, s)
        \<and> requireWhitelist e r s = (Some InviteOnly, s)
        \<and> post_grants e r s = (Inl InviteOnly, s))
  \<and> (\<not> truthy (req_address r) \<and> \<not> truthy (req_creator r) \<and> \<not> truthy (req_participant r)
      \<and> \<not> truthy (req_sender r) \<and> \<not> truthy (req_from r)
    \<longrightarrow> requireWhitelist e r s = (Some AddressRequired, s)
        \<and> post_grants e r s = (Inl AddressRequired, s)
        \<and> http_status AddressRequired = 400)
  \<and> (whitelist_candidate r = Some addr \<and> addr \<noteq> []
      \<and> toLowerCase addr \<notin> fst (fetchWhitelist e s)
    \<longrightarrow> fst (requireWhitelist e r s) = Some InviteOnly
        \<and> fst (post_grants e r s) = Inl InviteOnly
        \<and> http_status InviteOnly = 403)"
proof (intro conjI impI)
  assume a: "fetch_whitelist e = None \<and> whitelistCache s = Some c
      \<and> whitelist_candidate r = Some addr \<and> addr \<noteq> []"
  then show f: "fetchWhitelist e s = (c, s)"
    by (simp add: fetchWhitelist_failed)
  from a show "requireWhitelist e r s = (if toLowerCase addr \<in> c then None else Some InviteOnly, s)"
    by (simp add: requireWhitelist_candidate f)
next
  assume a: "fetch_whitelist e = None \<and> whitelistCache s = None
      \<and> whitelist_candidate r = Some addr \<and> addr \<noteq> []"
  then show f: "fetchWhitelist e s = ({}, s)"
    by (simp add: fetchWhitelist_failed)
  from a show g: "requireWhitelist e r s = (Some InviteOnly, s)"
    by (simp add: requireWhitelist_candidate f)
  then show "post_grants e r s = (Inl InviteOnly, s)"
    by (simp add: post_grants_def)
next
  assume a: "\<not> truthy (req_address r) \<and> \<not> truthy (req_creator r) \<and> \<not> truthy (req_participant r)
      \<and> \<not> truthy (req_sender r) \<and> \<not> truthy (req_from r)"
  then have "\<not> truthy (whitelist_candidate r)"
    by (simp add: no_candidate)
  then show g: "requireWhitelist e r s = (Some AddressRequired, s)"
    by (rule requireWhitelist_no_candidate)
  then show "post_grants e r s = (Inl AddressRequired, s)"
    by (simp add: post_grants_def)
  show "http_status AddressRequired = 400" by simp
next
  assume a: "whitelist_candidate r = Some addr \<and> addr \<noteq> []
      \<and> toLowerCase addr \<notin> fst (fetchWhitelist e s)"
  then show g: "fst (requireWhitelist e r s) = Some InviteOnly"
    by (simp add: requireWhitelist_candidate)
  then show "fst (post_grants e r s) = Inl InviteOnly"
    by (rule post_grants_gate_error)
  show "http_status InviteOnly = 403" by simp
qed

theorem whitelist_gate_witness:
  "requireWhitelist stale_env example_request example_state = (None, example_state)
   \<and> post_grants (example_env\<lparr>fetch_whitelist := None\<rparr>) example_request init_state
       = (Inl InviteOnly, init_state)
   \<and> post_grants example_env (example_request\<lparr>req_address := None\<rparr>) init_state
       = (Inl AddressRequired, init_state)
   \<and> fst (post_grants example_env (example_request\<lparr>req_address := Some ''0xdead''\<rparr>) init_state)
       = Inl InviteOnly"
proof -
  have a: "fetch_whitelist stale_env = None
      \<and> whitelistCache example_state = Some {''0xbbbbbbbbbbbbbbbbbbbbbbbbbbbbbbbbbbbbbbbb''}
      \<and> whitelist_candidate example_request = Some ''0xbbbbbbbbbbbbbbbbbbbbbbbbbbbbbbbbbbbbbbbb''
      \<and> ''0xbbbbbbbbbbbbbbbbbbbbbbbbbbbbbbbbbbbbbbbb'' \<noteq> []"
    by code_simp
  have b: "fetch_whitelist (example_env\<lparr>fetch_whitelist := None\<rparr>) = None
      \<and> whitelistCache init_state = None
      \<and> whitelist_candidate example_request = Some ''0xbbbbbbbbbbbbbbbbbbbbbbbbbbbbbbbbbbbbbbbb''
      \<and> ''0xbbbbbbbbbbbbbbbbbbbbbbbbbbbbbbbbbbbbbbbb'' \<noteq> []"
    by code_simp
  have c: "\<not> truthy (req_address (example_request\<lparr>req_address := None\<rparr>))
      \<and> \<not> truthy (req_creator (example_request\<lparr>req_address := None\<rparr>))
      \<and> \<not> truthy (req_participant (example_request\<lparr>req_address := None\<rparr>))
      \<and> \<not> truthy (req_sender (example_request\<lparr>req_address := None\<rparr>))
      \<and> \<not> truthy (req_from (example_request\<lparr>req_address := None\<rparr>))"
    by code_simp
  have d: "whitelist_candidate (example_request\<lparr>req_address := Some ''0xdead''\<rparr>) = Some ''0xdead''
      \<and> ''0xdead'' \<noteq> []
      \<and> toLowerCase ''0xdead'' \<notin> fst (fetchWhitelist example_env init_state)"
    by code_simp
  have m: "toLowerCase ''0xbbbbbbbbbbbbbbbbbbbbbbbbbbbbbbbbbbbbbbbb''
      \<in> {''0xbbbbbbbbbbbbbbbbbbbbbbbbbbbbbbbbbbbbbbbb''}"
    by code_simp
  from whitelist_gate [of stale_env example_state
      "{''0xbbbbbbbbbbbbbbbbbbbbbbbbbbbbbbbbbbbbbbbb''}" example_request
      "''0xbbbbbbbbbbbbbbbbbbbbbbbbbbbbbbbbbbbbbbbb''"] a m
  have 1: "requireWhitelist stale_env example_request example_state = (None, example_state)"
    by simp
  from whitelist_gate [of "example_env\<lparr>fetch_whitelist := None\<rparr>" init_state _ example_request
      "''0xbbbbbbbbbbbbbbbbbbbbbbbbbbbbbbbbbbbbbbbb''"] b
  have 2: "post_grants (example_env\<lparr>fetch_whitelist := None\<rparr>) example_request init_state
      = (Inl InviteOnly, init_state)"
    by blast
  from whitelist_gate [where e = example_env and s = init_state
      and r = "example_request\<lparr>req_address := None\<rparr>"] c
  have 3: "post_grants example_env (example_request\<lparr>req_address := None\<rparr>) init_state
      = (Inl AddressRequired, init_state)"
    by blast
  from whitelist_gate [of example_env init_state _
      "example_request\<lparr>req_address := Some ''0xdead''\<rparr>" "''0xdead''"] d
  have 4: "fst (post_grants example_env (example_request\<lparr>req_address := Some ''0xdead''\<rparr>) init_state)
      = Inl InviteOnly"
    by blast
  from 1 2 3 4 show ?thesis by blast
qed

subsection \<open>Reachable states\<close>

lemma of_char_char_of_small: "n < 256 \<Longrightarrow> of_char (char_of (n::nat)) = n"
  by simp

lemma toLowerChar_idem: "toLowerChar (toLowerChar c) = toLowerChar c"
proof (cases "(65::nat) \<le> of_char c \<and> of_char c \<le> (90::nat)")
  case True
  then have "of_char (char_of (of_char c + (32::nat))) = of_char c + (32::nat)"
    by (intro of_char_char_of_small) simp
  with True show ?thesis by (simp add: toLowerChar_def)
next
  case False
  then show ?thesis by (auto simp: toLowerChar_def)
qed

lemma toLowerCase_idem: "toLowerCase (toLowerCase s) = toLowerCase s"
  by (simp add: toLowerCase_def toLowerChar_idem)

lemma update_fresh: "k \<notin> fst ` set al \<Longrightarrow> AList.update k v al = al @ [(k, v)]"
  by (induction al) auto

lemma update_member: "(a, b) \<in> set (AList.update k v al) \<Longrightarrow> b = v \<or> (a, b) \<in> set al"
  by (induction al) (auto split: if_splits)

lemma track_grantor_keys:
  "fst ` set (track_grantor a f m) = insert a (fst ` set m)"
  by (auto simp: track_grantor_def Let_def dom_update split: option.splits)

lemma store_lowercase:
  assumes "lowercase_addresses s" "toLowerCase (recipient g) = recipient g"
    "toLowerCase (grantor g) = grantor g" "grants s' = AList.update k g (grants s)"
  shows "lowercase_addresses s'"
  using assms
  by (auto simp: lowercase_addresses_def grants_values_def list_all_iff dest!: update_member)

lemma post_grants_complete_stored:
  assumes "post_grants_complete e r rc h s = (Inr g, s')"
  shows "toLowerCase (recipient g) = recipient g \<and> toLowerCase (grantor g) = grantor g
    \<and> grants s' = AList.update (uuid_id e) g (grants s)
    \<and> grantors s' = track_grantor (grantor g) (grossAmount g) (grantors s)"
  using assms
  by (auto simp: post_grants_complete_def record_grant_def Let_def toLowerCase_idem
           split: sum.splits prod.splits)

lemma post_grants_stored:
  assumes "post_grants e r s = (Inr g, s')"
  shows "toLowerCase (recipient g) = recipient g \<and> toLowerCase (grantor g) = grantor g
    \<and> grants s' = AList.update (uuid_id e) g (grants s)
    \<and> grantors s' = track_grantor (grantor g) (grossAmount g) (grantors s)"
proof -
  obtain x s1 where gate: "requireWhitelist e r s = (x, s1)"
    by (cases "requireWhitelist e r s")
  with assms have h: "post_grants_handler e r s1 = (Inr g, s')"
    by (cases x) (simp_all add: post_grants_def)
  then obtain rc txh where "post_grants_complete e r rc txh s1 = (Inr g, s')"
    by (auto simp: post_grants_handler_def split: sum.splits prod.splits)
  from post_grants_complete_stored [OF this] requireWhitelist_maps [OF gate]
  show ?thesis by simp
qed

lemma post_e2e_stored:
  assumes "post_e2e e r s = (Inr g, s')"
  shows "toLowerCase (recipient g) = recipient g \<and> toLowerCase (grantor g) = grantor g
    \<and> grants s' = AList.update (uuid_id e) g (grants s)
    \<and> grantors s' = grantors s"
  using assms
  by (auto simp: post_e2e_def Let_def toLowerCase_idem
           split: option.splits sum.splits prod.splits if_splits)

lemma post_e2e_error: "post_e2e e r s = (Inl err, s') \<Longrightarrow> s' = s"
  by (auto simp: post_e2e_def Let_def split: option.splits sum.splits prod.splits if_splits)

lemma grantors_have_grants_iff:
  "grantors_have_grants s \<longleftrightarrow> fst ` set (grantors s) \<subseteq> grantor ` set (grants_values s)"
  by (auto simp: grantors_have_grants_def list_all_iff)

lemma store_grantors_have_grants:
  assumes "grantors_have_grants s" "k \<notin> fst ` set (grants s)"
    "grants s' = AList.update k g (grants s)"
    "fst ` set (grantors s') \<subseteq> insert (grantor g) (fst ` set (grantors s))"
  shows "grantors_have_grants s'"
proof -
  have "grants_values s' = grants_values s @ [g]"
    using assms(2,3) by (simp add: grants_values_def update_fresh)
  then have "grantor ` set (grants_values s') = insert (grantor g) (grantor ` set (grants_values s))"
    by simp
  moreover have "fst ` set (grantors s) \<subseteq> grantor ` set (grants_values s)"
    using assms(1) by (simp add: grantors_have_grants_iff)
  then have "insert (grantor g) (fst ` set (grantors s))
      \<subseteq> insert (grantor g) (grantor ` set (grants_values s))"
    by (rule insert_mono)
  ultimately have "fst ` set (grantors s') \<subseteq> grantor ` set (grants_values s')"
    using assms(4) by (simp only: subset_trans)
  then show ?thesis
    by (simp add: grantors_have_grants_iff)
qed

lemma post_grants_error_invariants:
  assumes "post_grants e r s = (Inl err, s')"
  shows "lowercase_addresses s' = lowercase_addresses s
    \<and> grantors_have_grants s' = grantors_have_grants s"
proof -
  obtain x s1 where gate: "requireWhitelist e r s = (x, s1)"
    by (cases "requireWhitelist e r s")
  have "s' = s1"
  proof (cases x)
    case None
    with gate assms have "post_grants_handler e r s1 = (Inl err, s')"
      by (simp add: post_grants_def)
    then show ?thesis by (rule post_grants_handler_error)
  next
    case (Some err')
    with gate assms show ?thesis by (simp add: post_grants_def)
  qed
  with requireWhitelist_maps [OF gate] show ?thesis
    by (simp add: lowercase_addresses_def grantors_have_grants_def grants_values_def)
qed

lemma reachable_invariants:
  "reachable s \<Longrightarrow> lowercase_addresses s \<and> grantors_have_grants s"
proof (induction rule: reachable.induct)
  case reachable_init
  show ?case
    by (simp add: lowercase_addresses_def grantors_have_grants_def init_state_def grants_values_def)
next
  case (reachable_post_grants s e r)
  obtain a s' where p: "post_grants e r s = (a, s')"
    by (cases "post_grants e r s")
  show ?case
  proof (cases a)
    case (Inl err)
    with p have "lowercase_addresses s' = lowercase_addresses s
        \<and> grantors_have_grants s' = grantors_have_grants s"
      by (simp add: post_grants_error_invariants)
    with reachable_post_grants.IH p show ?thesis
      by simp
  next
    case (Inr g)
    with p have st: "toLowerCase (recipient g) = recipient g \<and> toLowerCase (grantor g) = grantor g
      \<and> grants s' = AList.update (uuid_id e) g (grants s)
      \<and> grantors s' = track_grantor (grantor g) (grossAmount g) (grantors s)"
      by (simp add: post_grants_stored)
    have "lowercase_addresses s'"
      using reachable_post_grants.IH st by (blast intro: store_lowercase)
    moreover have "grantors_have_grants s'"
      using reachable_post_grants.IH reachable_post_grants.hyps(2) st
      by (intro store_grantors_have_grants [of s "uuid_id e" s' g]) (simp_all add: track_grantor_keys)
    ultimately show ?thesis using p by simp
  qed
next
  case (reachable_post_e2e s e r)
  obtain a s' where p: "post_e2e e r s = (a, s')"
    by (cases "post_e2e e r s")
  show ?case
  proof (cases a)
    case (Inl err)
    with p have "s' = s" by (simp add: post_e2e_error)
    with reachable_post_e2e.IH p show ?thesis by simp
  next
    case (Inr g)
    with p have st: "toLowerCase (recipient g) = recipient g \<and> toLowerCase (grantor g) = grantor g
      \<and> grants s' = AList.update (uuid_id e) g (grants s)
      \<and> grantors s' = grantors s"
      by (simp add: post_e2e_stored)
    have "lowercase_addresses s'"
      using reachable_post_e2e.IH st by (blast intro: store_lowercase)
    moreover have "grantors_have_grants s'"
      using reachable_post_e2e.IH reachable_post_e2e.hyps(2) st
      by (intro store_grantors_have_grants [of s "uuid_id e" s' g]) (simp_all add: subset_insertI)
    ultimately show ?thesis using p by simp
  qed
qed

lemma example_state_reachable: "reachable example_state"
proof -
  have "uuid_id example_env \<notin> fst ` set (grants init_state)"
    by (simp add: init_state_def)
  from reachable_post_grants [OF reachable_init this, of example_request]
  show ?thesis by (simp add: example_post_grants)
qed

lemma third_state_reachable: "reachable third_state"
proof -
  have "uuid_id second_env \<notin> fst ` set (grants example_state)"
    by (simp add: second_env_def example_state_def)
  from reachable_post_grants [OF example_state_reachable this, of second_request]
  have s: "reachable second_state"
    by (simp add: second_post_grants)
  have "uuid_id third_env \<notin> fst ` set (grants second_state)"
    by (simp add: third_env_def second_state_def)
  from reachable_post_grants [OF s this, of third_request]
  show ?thesis by (simp add: third_post_grants)
qed

lemma large_state_grantors:
  "grants (snd (post_grants second_env large_request init_state))
     = [(''id-2'', snd (hd (grants (snd (post_grants second_env large_request init_state)))))]
   \<and> grantors large_state
     = [(''0x1111111111111111111111111111111111111111'',
         \<lparr>totalGrants = 2, totalAmount = 2 ^ 512 - 2\<rparr>)]
   \<and> map grantor (grants_values large_state)
     = [''0x1111111111111111111111111111111111111111'',
        ''0x1111111111111111111111111111111111111111'']"
  by code_simp

lemma large_state_reachable: "reachable large_state"
proof -
  have "uuid_id second_env \<notin> fst ` set (grants init_state)"
    by (simp add: init_state_def)
  from reachable_post_grants [OF reachable_init this, of large_request]
  have s: "reachable (snd (post_grants second_env large_request init_state))" .
  have "fst ` set (grants (snd (post_grants second_env large_request init_state))) = {''id-2''}"
    by (subst conjunct1 [OF large_state_grantors]) simp
  then have "uuid_id third_env \<notin> fst ` set (grants (snd (post_grants second_env large_request init_state)))"
    by (simp add: third_env_def)
  from reachable_post_grants [OF s this] show ?thesis
    by (simp add: large_state_def)
qed

subsection \<open>GET /grantors/:address\<close>

lemma no_stats_without_grants:
  assumes "reachable s"
    and "\<forall>g \<in> set (grants_values s). toLowerCase (grantor g) \<noteq> toLowerCase a"
  shows "map_of (grantors s) (toLowerCase a) = None"
proof (rule ccontr)
  assume "map_of (grantors s) (toLowerCase a) \<noteq> None"
  then have "toLowerCase a \<in> fst ` set (grantors s)"
    by (simp add: map_of_eq_None_iff)
  moreover have "fst ` set (grantors s) \<subseteq> grantor ` set (grants_values s)"
    using assms(1) reachable_invariants grantors_have_grants_iff by blast
  ultimately obtain g where "g \<in> set (grants_values s)" "grantor g = toLowerCase a"
    by auto
  with assms(2) show False
    by (auto simp: toLowerCase_idem)
qed

text \<open>
  C10, as amended. In every reachable state, for an address that \<^verbatim>\<open>ethers.isAddress\<close>
  accepts and that is the grantor of no stored record (compared without regard to
  case), GET /grantors/:address answers 200 with zero stats: \<^verbatim>\<open>totalGrants\<close> 0,
  \<^verbatim>\<open>totalAmount\<close> \<^verbatim>\<open>'0'\<close>, \<^verbatim>\<open>totalAmountFormatted\<close> \<^verbatim>\<open>'0 ETH'\<close>. An address that
  \<^verbatim>\<open>isAddress\<close> rejects is answered 400 Invalid address. The only other error of the
  endpoint is the exception of \<^verbatim>\<open>formatETH\<close>, answered 500: for an address that
  \<^verbatim>\<open>isAddress\<close> accepts and whose stats hold a total outside the range of 512-bit signed
  integers.
\<close>

theorem grantor_without_grants:
  assumes "reachable s"
  shows "(isAddress e a \<and> (\<forall>g \<in> set (grants_values s). toLowerCase (grantor g) \<noteq> toLowerCase a)
      \<longrightarrow> get_grantor e a s =
            Inr \<lparr>gr_address = toLowerCase a, gr_totalGrants = 0, gr_totalAmount = 0,
                 gr_totalAmountFormatted = Some ''0 ETH'', gr_recentGrants = None\<rparr>)
    \<and> (\<not> isAddress e a \<longrightarrow> get_grantor e a s = Inl InvalidAddress \<and> http_status InvalidAddress = 400)
    \<and> (\<forall>err. get_grantor e a s = Inl err \<and> isAddress e a
         \<longrightarrow> http_status err = 500
           \<and> (\<exists>stats. map_of (grantors s) (toLowerCase a) = Some stats
                 \<and> (totalAmount stats < - (2 ^ 511) \<or> 2 ^ 511 \<le> totalAmount stats)))"
proof (intro conjI impI allI)
  assume "isAddress e a \<and> (\<forall>g \<in> set (grants_values s). toLowerCase (grantor g) \<noteq> toLowerCase a)"
  then show "get_grantor e a s =
            Inr \<lparr>gr_address = toLowerCase a, gr_totalGrants = 0, gr_totalAmount = 0,
                 gr_totalAmountFormatted = Some ''0 ETH'', gr_recentGrants = None\<rparr>"
    using no_stats_without_grants [OF assms, of a] by (simp add: get_grantor_def)
next
  assume "\<not> isAddress e a"
  then show "get_grantor e a s = Inl InvalidAddress" by (simp add: get_grantor_def)
next
  show "http_status InvalidAddress = 400" by simp
next
  fix err assume h: "get_grantor e a s = Inl err \<and> isAddress e a"
  then obtain stats msg where st: "map_of (grantors s) (toLowerCase a) = Some stats"
    and f: "formatETH (totalAmount stats) = Inl msg" and e: "err = ServerError msg"
    by (auto simp: get_grantor_def Let_def split: option.splits sum.splits)
  from e show "http_status err = 500" by simp
  from f have "totalAmount stats < - (2 ^ 511) \<or> 2 ^ 511 \<le> totalAmount stats"
    by (auto simp: formatETH_def Let_def split: if_splits)
  with st show "\<exists>stats. map_of (grantors s) (toLowerCase a) = Some stats
                 \<and> (totalAmount stats < - (2 ^ 511) \<or> 2 ^ 511 \<le> totalAmount stats)"
    by blast
qed

theorem grantor_without_grants_witness:
  "reachable third_state
   \<and> isAddress example_env ''0xeeeeeeeeeeeeeeeeeeeeeeeeeeeeeeeeeeeeeeee''
   \<and> list_all (\<lambda>g. toLowerCase (grantor g) \<noteq> toLowerCase ''0xeeeeeeeeeeeeeeeeeeeeeeeeeeeeeeeeeeeeeeee'')
        (grants_values third_state)
   \<and> get_grantor example_env ''0xeeeeeeeeeeeeeeeeeeeeeeeeeeeeeeeeeeeeeeee'' third_state =
       Inr \<lparr>gr_address = ''0xeeeeeeeeeeeeeeeeeeeeeeeeeeeeeeeeeeeeeeee'', gr_totalGrants = 0,
            gr_totalAmount = 0, gr_totalAmountFormatted = Some ''0 ETH'', gr_recentGrants = None\<rparr>
   \<and> \<not> isAddress example_env ''0x12''
   \<and> get_grantor example_env ''0x12'' third_state = Inl InvalidAddress
   \<and> reachable large_state
   \<and> isAddress example_env ''0x1111111111111111111111111111111111111111''
   \<and> get_grantor example_env ''0x1111111111111111111111111111111111111111'' large_state
       = Inl (ServerError ''overflow'')
   \<and> (\<exists>stats. map_of (grantors large_state)
                 (toLowerCase ''0x1111111111111111111111111111111111111111'') = Some stats
          \<and> (totalAmount stats < - (2 ^ 511) \<or> 2 ^ 511 \<le> totalAmount stats))"
proof -
  have v: "isAddress example_env ''0xeeeeeeeeeeeeeeeeeeeeeeeeeeeeeeeeeeeeeeee''"
    by code_simp
  have n: "list_all (\<lambda>g. toLowerCase (grantor g) \<noteq> toLowerCase ''0xeeeeeeeeeeeeeeeeeeeeeeeeeeeeeeeeeeeeeeee'')
        (grants_values third_state)"
    by code_simp
  have l: "toLowerCase ''0xeeeeeeeeeeeeeeeeeeeeeeeeeeeeeeeeeeeeeeee'' = ''0xeeeeeeeeeeeeeeeeeeeeeeeeeeeeeeeeeeeeeeee''"
    by code_simp
  have i: "\<not> isAddress example_env ''0x12''"
    by code_simp
  have w: "isAddress example_env ''0x1111111111111111111111111111111111111111''"
    by code_simp
  have o: "get_grantor example_env ''0x1111111111111111111111111111111111111111'' large_state
       = Inl (ServerError ''overflow'')"
    by code_simp
  note t = grantor_without_grants [OF third_state_reachable]
  from t [of example_env "''0xeeeeeeeeeeeeeeeeeeeeeeeeeeeeeeeeeeeeeeee''"] v n l
  have 1: "get_grantor example_env ''0xeeeeeeeeeeeeeeeeeeeeeeeeeeeeeeeeeeeeeeee'' third_state =
       Inr \<lparr>gr_address = ''0xeeeeeeeeeeeeeeeeeeeeeeeeeeeeeeeeeeeeeeee'', gr_totalGrants = 0,
            gr_totalAmount = 0, gr_totalAmountFormatted = Some ''0 ETH'', gr_recentGrants = None\<rparr>"
    by (simp add: list_all_iff)
  from t [of example_env "''0x12''"] i
  have 2: "get_grantor example_env ''0x12'' third_state = Inl InvalidAddress"
    by blast
  from grantor_without_grants [OF large_state_reachable, of example_env
      "''0x1111111111111111111111111111111111111111''"] w o
  have 3: "\<exists>stats. map_of (grantors large_state)
                 (toLowerCase ''0x1111111111111111111111111111111111111111'') = Some stats
          \<and> (totalAmount stats < - (2 ^ 511) \<or> 2 ^ 511 \<le> totalAmount stats)"
    by blast
  from third_state_reachable large_state_reachable v n 1 i 2 w o 3 show ?thesis by blast
qed

text \<open>
  The claim as it stands, that only an address \<^verbatim>\<open>isAddress\<close> rejects is answered with an
  error, fails in a state that two requests reach: two mock grants of \<open>2^511 - 1\<close> wei,
  the largest amount that \<^verbatim>\<open>parseETH\<close> reads, to the default grantor of mock mode. The
  total of that grantor is \<open>2^512 - 2\<close> wei, \<^verbatim>\<open>formatETH\<close> throws, and the address,
  which \<^verbatim>\<open>isAddress\<close> accepts, is answered 500.
\<close>

theorem grantor_without_grants_counterexample:
  "reachable large_state
   \<and> map grantor (grants_values large_state)
       = [''0x1111111111111111111111111111111111111111'',
          ''0x1111111111111111111111111111111111111111'']
   \<and> grantors large_state
       = [(''0x1111111111111111111111111111111111111111'',
           \<lparr>totalGrants = 2, totalAmount = 2 ^ 512 - 2\<rparr>)]
   \<and> formatETH (2 ^ 512 - 2) = Inl ''overflow''
   \<and> isAddress example_env ''0x1111111111111111111111111111111111111111''
   \<and> get_grantor example_env ''0x1111111111111111111111111111111111111111'' large_state
       = Inl (ServerError ''overflow'')
   \<and> http_status (ServerError ''overflow'') = 500"
proof -
  have "formatETH (2 ^ 512 - 2) = Inl ''overflow''
   \<and> isAddress example_env ''0x1111111111111111111111111111111111111111''
   \<and> get_grantor example_env ''0x1111111111111111111111111111111111111111'' large_state
       = Inl (ServerError ''overflow'')
   \<and> http_status (ServerError ''overflow'') = 500"
    by code_simp
  with large_state_reachable large_state_grantors show ?thesis
    by blast
qed

subsection \<open>GET /grants\<close>

lemma sort_by_createdAt_desc_sorted:
  "sorted_wrt (\<lambda>a b. createdAt b \<le> createdAt a) (sort_by_createdAt_desc xs)"
proof -
  have "sorted (map (\<lambda>g. - createdAt g) (sort_by_createdAt_desc xs))"
    by (simp add: sort_by_createdAt_desc_def)
  then show ?thesis
    by (simp add: sorted_map)
qed

lemma slice0_sorted: "sorted_wrt R xs \<Longrightarrow> sorted_wrt R (slice0 xs n)"
  by (auto simp: slice0_def split: option.splits)

lemma get_grants_unlimited:
  assumes "lowercase_addresses s"
  shows "get_grants (q\<lparr>q_limit := None\<rparr>) s
    = sort_by_createdAt_desc (filter (matches_query q) (grants_values s))"
proof -
  have low: "\<And>g. g \<in> set (grants_values s) \<Longrightarrow>
      toLowerCase (recipient g) = recipient g \<and> toLowerCase (grantor g) = grantor g"
    using assms by (simp add: lowercase_addresses_def list_all_iff)
  have "filter (matches_query q) (grants_values s) =
      (case q_grantor q of
         None \<Rightarrow> (\<lambda>xs. xs)
       | Some a \<Rightarrow> if a = [] then (\<lambda>xs. xs) else filter (\<lambda>g. grantor g = toLowerCase a))
      ((case q_recipient q of
         None \<Rightarrow> (\<lambda>xs. xs)
       | Some r \<Rightarrow> if r = [] then (\<lambda>xs. xs) else filter (\<lambda>g. recipient g = toLowerCase r))
       (grants_values s))"
    using low
    by (auto simp: matches_query_def toLowerCase_idem split: option.splits intro!: filter_cong)
  then show ?thesis
    by (auto simp: get_grants_def Let_def split: option.splits)
qed

lemma get_grants_limit:
  "get_grants q s =
     (case q_limit q of
        None \<Rightarrow> get_grants (q\<lparr>q_limit := None\<rparr>) s
      | Some l \<Rightarrow> if l = [] then get_grants (q\<lparr>q_limit := None\<rparr>) s
                  else slice0 (get_grants (q\<lparr>q_limit := None\<rparr>) s) (parseInt l))"
  by (simp add: get_grants_def Let_def split: option.splits)

text \<open>
  C7, as amended. In every reachable state and for every query, GET /grants answers with
  records in descending order of \<^verbatim>\<open>createdAt\<close>. Without a limit they are the stored
  records that match the query, sorted: a recipient that is given keeps exactly the
  records whose recipient is that address, compared without regard to case, and
  likewise a grantor. A limit that reads as a count \<open>n\<close> (\<^verbatim>\<open>parseInt\<close> gives \<open>n \<ge> 0\<close>)
  keeps the first \<open>n\<close> of them, so at most \<open>n\<close> records. A limit that reads as a negative
  number \<open>n\<close> leaves out the last \<open>- n\<close> of them instead, and a limit that \<^verbatim>\<open>parseInt\<close> does
  not read as a number gives no record at all.
\<close>

theorem list_grants:
  assumes "reachable s"
  shows "sorted_wrt (\<lambda>a b. createdAt b \<le> createdAt a) (get_grants q s)
    \<and> get_grants (q\<lparr>q_limit := None\<rparr>) s
        = sort_by_createdAt_desc (filter (matches_query q) (grants_values s))
    \<and> set (get_grants (q\<lparr>q_limit := None\<rparr>) s)
        = {g \<in> set (grants_values s). matches_query q g}
    \<and> (\<not> truthy (q_limit q) \<longrightarrow> get_grants q s = get_grants (q\<lparr>q_limit := None\<rparr>) s)
    \<and> (\<forall>l n. q_limit q = Some l \<and> l \<noteq> [] \<and> parseInt l = Some n \<and> 0 \<le> n
         \<longrightarrow> get_grants q s = take (nat n) (get_grants (q\<lparr>q_limit := None\<rparr>) s)
           \<and> int (length (get_grants q s)) \<le> n)
    \<and> (\<forall>l n. q_limit q = Some l \<and> l \<noteq> [] \<and> parseInt l = Some n \<and> n < 0
         \<longrightarrow> get_grants q s
             = take (nat (int (length (get_grants (q\<lparr>q_limit := None\<rparr>) s)) + n))
                 (get_grants (q\<lparr>q_limit := None\<rparr>) s))
    \<and> (\<forall>l. q_limit q = Some l \<and> l \<noteq> [] \<and> parseInt l = None \<longrightarrow> get_grants q s = [])"
proof -
  have low: "lowercase_addresses s"
    using assms reachable_invariants by blast
  have u: "get_grants (q\<lparr>q_limit := None\<rparr>) s
        = sort_by_createdAt_desc (filter (matches_query q) (grants_values s))"
    using low by (rule get_grants_unlimited)
  have su: "sorted_wrt (\<lambda>a b. createdAt b \<le> createdAt a) (get_grants (q\<lparr>q_limit := None\<rparr>) s)"
    by (simp only: u sort_by_createdAt_desc_sorted)
  have 1: "sorted_wrt (\<lambda>a b. createdAt b \<le> createdAt a) (get_grants q s)"
    by (subst get_grants_limit) (auto split: option.splits intro: su slice0_sorted)
  have 3: "set (get_grants (q\<lparr>q_limit := None\<rparr>) s)
        = {g \<in> set (grants_values s). matches_query q g}"
    by (simp only: u) (simp add: sort_by_createdAt_desc_def)
  have 4: "\<not> truthy (q_limit q) \<longrightarrow> get_grants q s = get_grants (q\<lparr>q_limit := None\<rparr>) s"
    by (subst get_grants_limit) (auto simp: truthy_def split: option.splits)
  have 5: "\<forall>l n. q_limit q = Some l \<and> l \<noteq> [] \<and> parseInt l = Some n \<and> 0 \<le> n
         \<longrightarrow> get_grants q s = take (nat n) (get_grants (q\<lparr>q_limit := None\<rparr>) s)
           \<and> int (length (get_grants q s)) \<le> n"
  proof (intro allI impI)
    fix l n
    assume a: "q_limit q = Some l \<and> l \<noteq> [] \<and> parseInt l = Some n \<and> 0 \<le> n"
    then have "get_grants q s = take (nat n) (get_grants (q\<lparr>q_limit := None\<rparr>) s)"
      by (subst get_grants_limit) (simp add: slice0_def)
    moreover have "length (take (nat n) (get_grants (q\<lparr>q_limit := None\<rparr>) s)) \<le> nat n"
      by simp
    then have "int (length (take (nat n) (get_grants (q\<lparr>q_limit := None\<rparr>) s))) \<le> n"
      using a by linarith
    ultimately show "get_grants q s = take (nat n) (get_grants (q\<lparr>q_limit := None\<rparr>) s)
           \<and> int (length (get_grants q s)) \<le> n"
      by simp
  qed
  have 6: "\<forall>l n. q_limit q = Some l \<and> l \<noteq> [] \<and> parseInt l = Some n \<and> n < 0
         \<longrightarrow> get_grants q s
             = take (nat (int (length (get_grants (q\<lparr>q_limit := None\<rparr>) s)) + n))
                 (get_grants (q\<lparr>q_limit := None\<rparr>) s)"
  proof (intro allI impI)
    fix l n
    assume a: "q_limit q = Some l \<and> l \<noteq> [] \<and> parseInt l = Some n \<and> n < 0"
    then show "get_grants q s
             = take (nat (int (length (get_grants (q\<lparr>q_limit := None\<rparr>) s)) + n))
                 (get_grants (q\<lparr>q_limit := None\<rparr>) s)"
      by (subst get_grants_limit) (simp add: slice0_def)
  qed
  have 7: "\<forall>l. q_limit q = Some l \<and> l \<noteq> [] \<and> parseInt l = None \<longrightarrow> get_grants q s = []"
  proof (intro allI impI)
    fix l
    assume a: "q_limit q = Some l \<and> l \<noteq> [] \<and> parseInt l = None"
    then show "get_grants q s = []"
      by (subst get_grants_limit) (simp add: slice0_def)
  qed
  from 1 u 3 4 5 6 7 show ?thesis by blast
qed

text \<open>
  On the state of three grants: the query for the recipient of the first and the third,
  in capital letters, finds these two, the later one first; with the limit 1 it answers
  with the later one.
\<close>

theorem list_grants_witness:
  "reachable third_state
   \<and> map createdAt (grants_values third_state) = [1001, 2002, 3003]
   \<and> map recipient (grants_values third_state)
       = [''0xcccccccccccccccccccccccccccccccccccccccc'',
          ''0xdddddddddddddddddddddddddddddddddddddddd'',
          ''0xcccccccccccccccccccccccccccccccccccccccc'']
   \<and> q_recipient example_query = Some ''0xCCCCCCCCCCCCCCCCCCCCCCCCCCCCCCCCCCCCCCCC''
   \<and> q_limit example_query = Some ''1'' \<and> ''1'' \<noteq> [] \<and> parseInt ''1'' = Some 1 \<and> (0::int) \<le> 1
   \<and> filter (matches_query example_query) (grants_values third_state)
       = [example_grant, third_grant]
   \<and> get_grants (example_query\<lparr>q_limit := None\<rparr>) third_state = [third_grant, example_grant]
   \<and> get_grants example_query third_state = [third_grant]
   \<and> int (length (get_grants example_query third_state)) \<le> 1
   \<and> sorted_wrt (\<lambda>a b. createdAt b \<le> createdAt a)
       (get_grants (example_query\<lparr>q_recipient := None, q_limit := None\<rparr>) third_state)
   \<and> get_grants (example_query\<lparr>q_recipient := None, q_limit := None\<rparr>) third_state
       = [third_grant, second_grant, example_grant]"
proof -
  have a: "q_limit example_query = Some ''1'' \<and> ''1'' \<noteq> [] \<and> parseInt ''1'' = Some 1 \<and> (0::int) \<le> 1"
    by code_simp
  have d: "map createdAt (grants_values third_state) = [1001, 2002, 3003]
      \<and> map recipient (grants_values third_state)
       = [''0xcccccccccccccccccccccccccccccccccccccccc'',
          ''0xdddddddddddddddddddddddddddddddddddddddd'',
          ''0xcccccccccccccccccccccccccccccccccccccccc'']
      \<and> q_recipient example_query = Some ''0xCCCCCCCCCCCCCCCCCCCCCCCCCCCCCCCCCCCCCCCC''"
    by code_simp
  have f: "filter (matches_query example_query) (grants_values third_state)
       = [example_grant, third_grant]"
    by code_simp
  have so: "sort_by_createdAt_desc [example_grant, third_grant] = [third_grant, example_grant]"
    by code_simp
  have al: "get_grants (example_query\<lparr>q_recipient := None, q_limit := None\<rparr>) third_state
       = [third_grant, second_grant, example_grant]"
    by code_simp
  note t = list_grants [OF third_state_reachable]
  from t [of example_query] f so
  have u: "get_grants (example_query\<lparr>q_limit := None\<rparr>) third_state = [third_grant, example_grant]"
    by simp
  from t [of example_query] a
  have "get_grants example_query third_state
          = take (nat 1) (get_grants (example_query\<lparr>q_limit := None\<rparr>) third_state)
      \<and> int (length (get_grants example_query third_state)) \<le> 1"
    by blast
  with u have g: "get_grants example_query third_state = [third_grant]
      \<and> int (length (get_grants example_query third_state)) \<le> 1"
    by simp
  from t [of "example_query\<lparr>q_recipient := None, q_limit := None\<rparr>"]
  have s: "sorted_wrt (\<lambda>a b. createdAt b \<le> createdAt a)
       (get_grants (example_query\<lparr>q_recipient := None, q_limit := None\<rparr>) third_state)"
    by blast
  from third_state_reachable a d f u g s al show ?thesis by blast
qed

text \<open>
  The claim as it stands, for every query, fails for a limit that is negative: with
  \<^verbatim>\<open>limit=-1\<close> the three stored grants are answered with two records, all but the
  oldest, which is not at most \<open>-1\<close> records, nor a truncation to a number of records
  that the limit names.
\<close>

theorem list_grants_counterexample:
  "reachable third_state
   \<and> q_limit negative_limit_query = Some ''-1'' \<and> parseInt ''-1'' = Some (- 1)
   \<and> get_grants (negative_limit_query\<lparr>q_limit := None\<rparr>) third_state
       = [third_grant, second_grant, example_grant]
   \<and> get_grants negative_limit_query third_state = [third_grant, second_grant]
   \<and> \<not> int (length (get_grants negative_limit_query third_state)) \<le> - 1"
proof -
  have "q_limit negative_limit_query = Some ''-1'' \<and> parseInt ''-1'' = Some (- 1)
   \<and> get_grants (negative_limit_query\<lparr>q_limit := None\<rparr>) third_state
       = [third_grant, second_grant, example_grant]
   \<and> get_grants negative_limit_query third_state = [third_grant, second_grant]
   \<and> \<not> int (length (get_grants negative_limit_query third_state)) \<le> - 1"
    by code_simp
  with third_state_reachable show ?thesis
    by blast
qed

subsection \<open>The duplicate check of POST /grants\<close>

lemma find_same_funding_tx:
  assumes "g \<in> set gs" "same_funding_tx h g"
  shows "\<exists>g' \<in> set gs. same_funding_tx h g' \<and> find (same_funding_tx h) gs = Some g'"
proof (cases "find (same_funding_tx h) gs")
  case None
  with assms show ?thesis by (auto simp: find_None_iff)
next
  case (Some g')
  then show ?thesis by (auto simp: find_Some_iff)
qed

lemma post_grants_check_duplicate:
  assumes "req_recipient r = Some rc" "rc \<noteq> []" "isAddress e rc"
    and "req_txHash r = Some h" "h \<noteq> []"
    and "find (same_funding_tx h) (grants_values s) = Some g'"
  shows "post_grants_handler e r s = (Inl (DuplicateFundingTransaction (grant_id g')), s)"
  using assms by (simp add: post_grants_handler_def post_grants_check_def)

lemma post_grants_check_passed:
  assumes "post_grants_check e r s = Inr (rc, h)"
  shows "req_recipient r = Some rc \<and> req_txHash r = Some h \<and> rc \<noteq> [] \<and> h \<noteq> [] \<and> isAddress e rc
    \<and> find (same_funding_tx h) (grants_values s) = None"
  using assms
  by (auto simp: post_grants_check_def split: option.splits if_splits)

lemma same_funding_tx_cong:
  "toLowerCase h2 = toLowerCase h \<Longrightarrow> same_funding_tx h2 = same_funding_tx h"
  by (auto simp: same_funding_tx_def fun_eq_iff)

lemma filter_none: "find P xs = None \<Longrightarrow> filter P xs = []"
  by (induction xs) (auto split: if_splits)

lemma find_append_none: "find P xs = None \<Longrightarrow> find P (xs @ ys) = find P ys"
  by (induction xs) (auto split: if_splits)

lemma find_update_new:
  assumes "find P (map snd al) = None" "P v"
  shows "find P (map snd (AList.update k v al)) = Some v
    \<and> filter P (map snd (AList.update k v al)) = [v]"
  using assms by (induction al) (auto simp: filter_none split: if_splits)

text \<open>
  C1, as amended. The duplicate check is the third step of the route, after the
  whitelist gate and the validation of the fields. For every state and every POST /grants
  request that passes the gate, names a recipient that \<^verbatim>\<open>isAddress\<close> accepts and carries a
  \<^verbatim>\<open>txHash\<close> equal, without regard to case, to the \<^verbatim>\<open>fundingTxHash\<close> of a stored record:
  the request is answered 400 with the id of a stored record of that hash, and the ledger
  and the stats stay as they were. So when a request has been served with a grant, a
  second such request with the same hash is answered with the id of that grant, and
  exactly one stored record has the hash.
\<close>

theorem duplicate_funding_tx:
  "(requireWhitelist e r s = (None, s1)
      \<and> req_recipient r = Some rc \<and> rc \<noteq> [] \<and> isAddress e rc
      \<and> req_txHash r = Some h \<and> h \<noteq> []
      \<and> g \<in> set (grants_values s) \<and> toLowerCase (fundingTxHash g) = toLowerCase h
    \<longrightarrow> (\<exists>g' \<in> set (grants_values s).
            toLowerCase (fundingTxHash g') = toLowerCase h
            \<and> post_grants e r s = (Inl (DuplicateFundingTransaction (grant_id g')), s1))
        \<and> http_status (DuplicateFundingTransaction (grant_id g)) = 400
        \<and> grants s1 = grants s \<and> grantors s1 = grantors s)
  \<and> (post_grants e r s = (Inr g, s1)
      \<and> requireWhitelist e2 r2 s1 = (None, s2)
      \<and> req_recipient r2 = Some rc \<and> rc \<noteq> [] \<and> isAddress e2 rc
      \<and> req_txHash r2 = Some h \<and> toLowerCase h = toLowerCase (fundingTxHash g)
    \<longrightarrow> post_grants e2 r2 s1 = (Inl (DuplicateFundingTransaction (grant_id g)), s2)
        \<and> grants s2 = grants s1 \<and> grantors s2 = grantors s1
        \<and> filter (same_funding_tx h) (grants_values s2) = [g])"
proof (intro conjI impI)
  assume a: "requireWhitelist e r s = (None, s1)
      \<and> req_recipient r = Some rc \<and> rc \<noteq> [] \<and> isAddress e rc
      \<and> req_txHash r = Some h \<and> h \<noteq> []
      \<and> g \<in> set (grants_values s) \<and> toLowerCase (fundingTxHash g) = toLowerCase h"
  then have maps: "grants s1 = grants s \<and> grantors s1 = grantors s"
    using requireWhitelist_maps by blast
  then show "grants s1 = grants s" and "grantors s1 = grantors s" by simp_all
  have "g \<in> set (grants_values s1)" "same_funding_tx h g"
    using a maps by (simp_all add: grants_values_def same_funding_tx_def)
  then obtain g' where g': "g' \<in> set (grants_values s1)" "same_funding_tx h g'"
      "find (same_funding_tx h) (grants_values s1) = Some g'"
    using find_same_funding_tx by blast
  with a have "post_grants_handler e r s1 = (Inl (DuplicateFundingTransaction (grant_id g')), s1)"
    by (simp add: post_grants_check_duplicate)
  with a have "post_grants e r s = (Inl (DuplicateFundingTransaction (grant_id g')), s1)"
    by (simp add: post_grants_def)
  with g' maps show "\<exists>g' \<in> set (grants_values s).
            toLowerCase (fundingTxHash g') = toLowerCase h
            \<and> post_grants e r s = (Inl (DuplicateFundingTransaction (grant_id g')), s1)"
    by (auto simp: grants_values_def same_funding_tx_def)
  show "http_status (DuplicateFundingTransaction (grant_id g)) = 400" by simp
next
  assume a: "post_grants e r s = (Inr g, s1)
      \<and> requireWhitelist e2 r2 s1 = (None, s2)
      \<and> req_recipient r2 = Some rc \<and> rc \<noteq> [] \<and> isAddress e2 rc
      \<and> req_txHash r2 = Some h \<and> toLowerCase h = toLowerCase (fundingTxHash g)"
  obtain x s0 where gate: "requireWhitelist e r s = (x, s0)"
    by (cases "requireWhitelist e r s")
  with a have hd: "post_grants_handler e r s0 = (Inr g, s1)"
    by (cases x) (simp_all add: post_grants_def)
  then obtain rc1 h1 where chk: "post_grants_check e r s0 = Inr (rc1, h1)"
      and cmp: "post_grants_complete e r rc1 h1 s0 = (Inr g, s1)"
    by (auto simp: post_grants_handler_def split: sum.splits prod.splits)
  have h1: "fundingTxHash g = h1"
    using cmp by (rule post_grants_complete_grant)
  have none: "find (same_funding_tx h1) (grants_values s0) = None" and "h1 \<noteq> []"
    using post_grants_check_passed [OF chk] by simp_all
  have st: "grants s1 = AList.update (uuid_id e) g (grants s0)"
    using post_grants_complete_stored [OF cmp] by simp
  have "toLowerCase h = toLowerCase h1"
    using a h1 by simp
  then have same: "same_funding_tx h = same_funding_tx h1"
    by (rule same_funding_tx_cong)
  have "same_funding_tx h1 g"
    using h1 by (simp add: same_funding_tx_def)
  with none st have fnd: "find (same_funding_tx h1) (grants_values s1) = Some g
      \<and> filter (same_funding_tx h1) (grants_values s1) = [g]"
    by (simp add: grants_values_def find_update_new)
  have maps: "grants s2 = grants s1 \<and> grantors s2 = grantors s1"
    using a requireWhitelist_maps by blast
  then show "grants s2 = grants s1" and "grantors s2 = grantors s1" by simp_all
  have v2: "grants_values s2 = grants_values s1"
    using maps by (simp add: grants_values_def)
  have "h \<noteq> []"
    using a h1 \<open>h1 \<noteq> []\<close> by (auto simp: toLowerCase_def)
  with a fnd same v2
  have "post_grants_handler e2 r2 s2 = (Inl (DuplicateFundingTransaction (grant_id g)), s2)"
    by (simp add: post_grants_check_duplicate)
  with a show "post_grants e2 r2 s1 = (Inl (DuplicateFundingTransaction (grant_id g)), s2)"
    by (simp add: post_grants_def)
  from fnd same v2 show "filter (same_funding_tx h) (grants_values s2) = [g]"
    by simp
qed

theorem duplicate_funding_tx_witness:
  "requireWhitelist example_env duplicate_request example_state = (None, example_state)
   \<and> req_recipient duplicate_request = Some ''0xcccccccccccccccccccccccccccccccccccccccc''
   \<and> isAddress example_env ''0xcccccccccccccccccccccccccccccccccccccccc''
   \<and> req_txHash duplicate_request = Some example_tx_hash_lower
   \<and> example_grant \<in> set (grants_values example_state)
   \<and> toLowerCase (fundingTxHash example_grant) = toLowerCase example_tx_hash_lower
   \<and> post_grants example_env example_request init_state = (Inr example_grant, example_state)
   \<and> post_grants example_env duplicate_request example_state
       = (Inl (DuplicateFundingTransaction (grant_id example_grant)), example_state)
   \<and> filter (same_funding_tx example_tx_hash_lower) (grants_values example_state) = [example_grant]
   \<and> (\<exists>g' \<in> set (grants_values example_state).
         toLowerCase (fundingTxHash g') = toLowerCase example_tx_hash_lower
         \<and> post_grants example_env duplicate_request example_state
             = (Inl (DuplicateFundingTransaction (grant_id g')), example_state))"
proof -
  have a: "requireWhitelist example_env duplicate_request example_state = (None, example_state)
      \<and> req_recipient duplicate_request = Some ''0xcccccccccccccccccccccccccccccccccccccccc''
      \<and> ''0xcccccccccccccccccccccccccccccccccccccccc'' \<noteq> []
      \<and> isAddress example_env ''0xcccccccccccccccccccccccccccccccccccccccc''
      \<and> req_txHash duplicate_request = Some example_tx_hash_lower \<and> example_tx_hash_lower \<noteq> []
      \<and> example_grant \<in> set (grants_values example_state)
      \<and> toLowerCase (fundingTxHash example_grant) = toLowerCase example_tx_hash_lower"
    by code_simp
  have b: "toLowerCase example_tx_hash_lower = toLowerCase (fundingTxHash example_grant)"
    by code_simp
  note t = duplicate_funding_tx [where rc = "''0xcccccccccccccccccccccccccccccccccccccccc''"
      and h = example_tx_hash_lower and g = example_grant and ?s1.0 = example_state]
  from t [where e = example_env and r = duplicate_request and s = example_state] a
  have 1: "\<exists>g' \<in> set (grants_values example_state).
         toLowerCase (fundingTxHash g') = toLowerCase example_tx_hash_lower
         \<and> post_grants example_env duplicate_request example_state
             = (Inl (DuplicateFundingTransaction (grant_id g')), example_state)"
    by blast
  from t [where e = example_env and r = example_request and s = init_state
      and ?e2.0 = example_env and ?r2.0 = duplicate_request and ?s2.0 = example_state]
    a b example_post_grants
  have 2: "post_grants example_env duplicate_request example_state
       = (Inl (DuplicateFundingTransaction (grant_id example_grant)), example_state)
     \<and> filter (same_funding_tx example_tx_hash_lower) (grants_values example_state) = [example_grant]"
    by blast
  from a 1 2 example_post_grants show ?thesis by blast
qed

theorem duplicate_funding_tx_counterexample:
  "map fundingTxHash (grants_values example_state) = [example_tx_hash]
   \<and> toLowerCase example_tx_hash_lower = toLowerCase example_tx_hash
   \<and> req_txHash duplicate_request = Some example_tx_hash_lower
   \<and> post_grants example_env (duplicate_request\<lparr>req_recipient := None\<rparr>) example_state
       = (Inl MissingField, example_state)
   \<and> post_grants example_env (duplicate_request\<lparr>req_recipient := Some ''0x12''\<rparr>) example_state
       = (Inl InvalidRecipient, example_state)
   \<and> post_grants example_env (duplicate_request\<lparr>req_address := Some ''0xdead''\<rparr>) example_state
       = (Inl InviteOnly, example_state)"
  by code_simp

subsection \<open>POST /test/e2e and the funding transaction hash\<close>

text \<open>
  C2. The claim: no two stored records ever share a funding transaction hash, whatever
  the sequence of POST /grants and POST /test/e2e requests. POST /test/e2e has no
  duplicate check: on the empty service, two POST /test/e2e requests with the
  transaction hash \<open>example_tx_hash\<close> are both served, and two records with that hash
  are stored; likewise POST /test/e2e after POST /grants with the same hash.
\<close>

theorem e2e_repeats_funding_tx:
  "map_sum id fundingTxHash (fst (post_e2e example_env example_request init_state))
     = Inr example_tx_hash
   \<and> map_sum id fundingTxHash (fst (post_e2e second_env example_request
        (snd (post_e2e example_env example_request init_state))))
     = Inr example_tx_hash
   \<and> map fundingTxHash
     (grants_values (snd (post_e2e second_env example_request
        (snd (post_e2e example_env example_request init_state)))))
     = [example_tx_hash, example_tx_hash]
   \<and> map grant_id
     (grants_values (snd (post_e2e second_env example_request
        (snd (post_e2e example_env example_request init_state)))))
     = [''id-1'', ''id-2'']
   \<and> map fundingTxHash
     (grants_values (snd (post_e2e second_env example_request
        (snd (post_grants example_env example_request init_state)))))
     = [example_tx_hash, example_tx_hash]"
proof -
  have a: "post_e2e second_env example_request e2e_state
      = (Inr (e2e_grant\<lparr>grant_id := ''id-2'', createdAt := 2002\<rparr>),
         e2e_state\<lparr>grants := [(''id-1'', e2e_grant),
           (''id-2'', e2e_grant\<lparr>grant_id := ''id-2'', createdAt := 2002\<rparr>)]\<rparr>)"
    by code_simp
  have b: "post_e2e second_env example_request example_state
      = (Inr (e2e_grant\<lparr>grant_id := ''id-2'', createdAt := 2002\<rparr>),
         example_state\<lparr>grants := [(''id-1'', example_grant),
           (''id-2'', e2e_grant\<lparr>grant_id := ''id-2'', createdAt := 2002\<rparr>)]\<rparr>)"
    by code_simp
  show ?thesis
    unfolding example_post_e2e example_post_grants snd_conv fst_conv a b
    by (simp add: grants_values_def e2e_grant_def example_grant_def)
qed

subsection \<open>GET /stats\<close>

lemma foldl_sum: "foldl (\<lambda>sum g. sum + f g) a gs = a + sum_list (map f gs)"
  for a :: int
  by (induction gs arbitrary: a) simp_all

lemma get_stats_totals:
  assumes "get_stats s = Inr st"
  shows "st_totalGrants st = length (grants_values s)
   \<and> formatETH (sum_list (map netAmount (grants_values s))) = Inr (st_totalGranted st)
   \<and> formatETH (sum_list (map fee (grants_values s))) = Inr (st_totalFees st)
   \<and> st_uniqueRecipients st = card (recipient ` set (grants_values s))
   \<and> st_uniqueGrantors st = length (grantors s)"
  using assms
  by (auto simp: get_stats_def Let_def foldl_sum split: sum.splits)

text \<open>
  C6. The claim: \<^verbatim>\<open>uniqueGrantors\<close> of GET /stats is the number of distinct grantor
  addresses among the stored records. GET /stats answers with \<^verbatim>\<open>grantors.size\<close>, and
  POST /test/e2e stores a grant without the update of \<^verbatim>\<open>grantors\<close> that POST /grants
  makes: after one POST /test/e2e on the empty service one record is stored, with one
  grantor, and \<^verbatim>\<open>uniqueGrantors\<close> is 0.
\<close>

theorem stats_after_e2e:
  "map grantor (grants_values (snd (post_e2e example_env example_request init_state)))
     = [''0xd8da6bf26964af9d7eed9e03e53415d37aa96045'']
   \<and> get_stats (snd (post_e2e example_env example_request init_state))
     = Inr \<lparr>st_totalGrants = 1,
            st_totalGranted = Some ''0.009500 ETH'',
            st_totalFees = Some ''0.000500 ETH'',
            st_uniqueRecipients = 1,
            st_uniqueGrantors = 0\<rparr>"
  unfolding example_post_e2e snd_conv
  by code_simp

subsection \<open>Two requests in flight\<close>

text \<open>
  C9. The claim: simultaneous POST /grants requests with one \<^verbatim>\<open>txHash\<close> store exactly one
  record. Two live requests that both arrive before either is resumed both pass the
  duplicate check, both transfer, and both store a record; served one after the other,
  the second is answered with the duplicate error.
\<close>

theorem concurrent_requests_both_stored:
  "map fundingTxHash (grants_values (ledger
      (run_events two_requests [Arrive 0, Arrive 1, Resume 0, Resume 1] init_state)))
     = [example_tx_hash, example_tx_hash]
   \<and> map (\<lambda>(i, a). (i, map_sum id distributionTxHash a))
       (answers (run_events two_requests [Arrive 0, Arrive 1, Resume 0, Resume 1] init_state))
     = [(0, Inr ''0xd157''), (1, Inr ''0xd157'')]
   \<and> map fundingTxHash (grants_values (ledger
      (run_events two_requests [Arrive 0, Resume 0, Arrive 1, Resume 1] init_state)))
     = [example_tx_hash]
   \<and> map (\<lambda>(i, a). (i, map_sum id distributionTxHash a))
       (answers (run_events two_requests [Arrive 0, Resume 0, Arrive 1, Resume 1] init_state))
     = [(0, Inr ''0xd157''), (1, Inl (DuplicateFundingTransaction ''id-1''))]"
  by code_simp

end
